theory Spec2Isabelle
  imports Complex_Main
begin

section \<open>Data model\<close>

text \<open>
  A shallow embedding of \<^verbatim>\<open>models/diffusion/ddpm.py\<close>.

  Numbers are real numbers: every statement below is about exact arithmetic. A torch
  float operation never raises on a division by zero, a square root of a negative number
  or a logarithm of zero (it yields inf or nan), so which exception a call raises, and
  whether it raises at all, does not depend on the numeric values; only the values
  themselves are idealised here.

  A sample tensor of shape \<open>[B, d1, ..., dk]\<close> is the list of its \<open>B\<close> batch rows, each
  row the flattened list of its trailing entries; its shape is the list of row lengths.
  A one-dimensional table of the schedule is a list of reals. A device is a tag.
\<close>

datatype device = CPU | CUDA nat

datatype error =
    RuntimeError
  | AssertionError
  | IndexError
  | KeyError
  | AttributeError
  | ConfigurationError

text \<open>
  \<open>ConfigurationError\<close> is the exception the specification names; the source has no
  such class and no \<^verbatim>\<open>raise\<close> statement at all.
\<close>

type_synonym tensor = "real list list"

definition shape :: "tensor \<Rightarrow> nat list" where
  "shape x = map length x"

definition bindE :: "error + 'a \<Rightarrow> ('a \<Rightarrow> error + 'b) \<Rightarrow> error + 'b" where
  "bindE m f = (case m of Inl e \<Rightarrow> Inl e | Inr v \<Rightarrow> f v)"

subsection \<open>Tensor primitives of torch used by the source\<close>

text \<open>
  \<^verbatim>\<open>torch.linspace(start, end, steps)\<close>: a negative number of steps raises, one step
  yields \<open>[start]\<close>, otherwise the points \<open>start + i * (end - start) / (steps - 1)\<close>.
\<close>

definition linspace :: "real \<Rightarrow> real \<Rightarrow> int \<Rightarrow> error + real list" where
  "linspace start stop steps =
     (if steps < 0 then Inl RuntimeError
      else if steps = 1 then Inr [start]
      else Inr (map (\<lambda>i. start + real i * ((stop - start) / real_of_int (steps - 1)))
                  [0 ..< nat steps]))"

text \<open>The table that \<open>linspace\<close> returns when it does not raise.\<close>

definition linear_table :: "real \<Rightarrow> real \<Rightarrow> int \<Rightarrow> real list" where
  "linear_table a b steps =
     map (\<lambda>i. a + real i * ((b - a) / real_of_int (steps - 1))) [0 ..< nat steps]"

text \<open>\<^verbatim>\<open>torch.cumprod(a, dim=0)\<close> as a running product.\<close>

fun cumprod_from :: "real \<Rightarrow> real list \<Rightarrow> real list" where
  "cumprod_from acc [] = []"
| "cumprod_from acc (a # as) = (acc * a) # cumprod_from (acc * a) as"

definition cumprod :: "real list \<Rightarrow> real list" where
  "cumprod as = cumprod_from 1 as"

text \<open>
  Elementwise arithmetic on two tables or two tensors. The source applies these only to
  operands of one shape (the tables all have \<open>T\<close> entries after the assertion on
  \<open>alpha_bar_shifted\<close>; the tensors are products of one coefficient column with tensors
  of one asserted shape), where torch's result is the entrywise one.
\<close>

definition vmul :: "real list \<Rightarrow> real list \<Rightarrow> real list" where
  "vmul a b = map2 (*) a b"

definition vdiv :: "real list \<Rightarrow> real list \<Rightarrow> real list" where
  "vdiv a b = map2 (/) a b"

definition tadd :: "tensor \<Rightarrow> tensor \<Rightarrow> tensor" where
  "tadd a b = map2 (map2 (+)) a b"

definition tsub :: "tensor \<Rightarrow> tensor \<Rightarrow> tensor" where
  "tsub a b = map2 (map2 (-)) a b"

text \<open>
  The product of a coefficient column of shape \<open>[b, 1, ..., 1]\<close> with a tensor of batch
  size \<open>B\<close>, under torch's broadcasting: the batch sizes must agree or one of them be 1.
\<close>

definition bc_mul :: "real list \<Rightarrow> tensor \<Rightarrow> error + tensor" where
  "bc_mul col x =
     (if length col = length x then Inr (map2 (\<lambda>c row. map ((*) c) row) col x)
      else if length col = 1 then Inr (map (map ((*) (hd col))) x)
      else if length x = 1 then Inr (map (\<lambda>c. map ((*) c) (hd x)) col)
      else Inl RuntimeError)"

text \<open>\<^verbatim>\<open>x.clamp_(-1.0, 1.0)\<close>\<close>

definition clamp :: "tensor \<Rightarrow> tensor" where
  "clamp x = map (map (\<lambda>v. min 1 (max (- 1) v))) x"

text \<open>
  \<^verbatim>\<open>extract(a, t, x_shape)\<close>, named \<open>extract_gather\<close> here (\<open>extract\<close> is a keyword
  of Isabelle): \<^verbatim>\<open>a.gather(-1, t)\<close> reads \<open>a[t[i]]\<close> for each batch index and raises
  when the table and the indices live on different devices or an index is outside
  \<open>[0, len(a))\<close>; the reshape to \<open>[b, 1, ..., 1]\<close> makes it a coefficient column.
  The timesteps \<open>t\<close> are a one-dimensional tensor of Python integers.
\<close>

definition extract_gather ::
  "device \<Rightarrow> real list \<Rightarrow> device \<Rightarrow> int list \<Rightarrow> error + real list" where
  "extract_gather adev a tdev t =
     (if adev \<noteq> tdev then Inl RuntimeError
      else if list_all (\<lambda>i. 0 \<le> i \<and> i < int (length a)) t
           then Inr (map (\<lambda>i. a ! nat i) t)
      else Inl RuntimeError)"

subsection \<open>The model instance\<close>

record precomputed =
  const_dev :: device
  betas :: "real list"
  alphas :: "real list"
  alpha_bar :: "real list"
  alpha_bar_shifted :: "real list"
  sqrt_alpha_bar :: "real list"
  minus_sqrt_alpha_bar :: "real list"
  sqrt_recip_alphas_cumprod :: "real list"
  sqrt_recipm1_alphas_cumprod :: "real list"
  post_variance :: "real list"
  post_log_variance_clipped :: "real list"
  p_variance :: "real list"
  p_log_variance :: "real list"
  post_coeff_1 :: "real list"
  post_coeff_2 :: "real list"

text \<open>
  The attributes of a \<^verbatim>\<open>DDPM\<close> object: the constructor's arguments and the tables
  (\<open>tables\<close>), absent until \<^verbatim>\<open>setup_precomputed_const\<close> has run.
  The decoder is passed to the operations as a function.
\<close>

record ddpm =
  T :: int
  beta_1 :: real
  beta_2 :: real
  var_type :: string
  tables :: "precomputed option"

text \<open>
  The flag \<^verbatim>\<open>self.setup_consts\<close>. The source sets it to False in the constructor and to
  True only right after a completed \<^verbatim>\<open>setup_precomputed_const\<close>, the only place that
  assigns the tables, so it is true exactly when the tables are there. (A setup that raises
  half-way leaves some tables assigned and the flag False; the next call starts the setup
  again and no method reads them before, so that state is \<open>tables = None\<close>.)
\<close>

definition setup_consts :: "ddpm \<Rightarrow> bool" where
  "setup_consts m = (tables m \<noteq> None)"

definition init :: "real \<Rightarrow> real \<Rightarrow> int \<Rightarrow> string \<Rightarrow> ddpm" where
  "init b1 b2 steps vt =
     \<lparr>T = steps, beta_1 = b1, beta_2 = b2, var_type = vt, tables = None\<rparr>"

section \<open>Schedule construction\<close>

text \<open>
  \<^verbatim>\<open>setup_precomputed_const\<close>, in the order of the source: the linear betas, the
  cumulative product, the shifted product and its length assertion, the auxiliary tables,
  the posterior variance, the read of \<open>post_variance[1]\<close> (an IndexError on a table of one
  entry), the dictionary literal with both variants, and the lookup of \<open>var_type\<close> in it
  (a KeyError on any other string).
\<close>

definition setup_precomputed_const :: "ddpm \<Rightarrow> device \<Rightarrow> error + precomputed" where
  "setup_precomputed_const m dev =
     bindE (linspace (beta_1 m) (beta_2 m) (T m)) (\<lambda>bs.
       let als = map (\<lambda>b. 1 - b) bs;
           ab = cumprod als;
           shifted = 1 # butlast ab
       in if int (length shifted) \<noteq> T m then Inl AssertionError
          else
            let pv = vdiv (vmul bs (map (\<lambda>a. 1 - a) shifted)) (map (\<lambda>a. 1 - a) ab)
            in if length pv \<le> 1 then Inl IndexError
               else
                 let plvc = map ln (pv ! 1 # drop 1 pv);
                     large = (bs, map ln (pv ! 1 # drop 1 bs));
                     small = (pv, plvc)
                 in bindE (if var_type m = ''fixedlarge'' then Inr large
                           else if var_type m = ''fixedsmall'' then Inr small
                           else Inl KeyError) (\<lambda>(pvar, plogvar).
                      Inr \<lparr>const_dev = dev,
                           betas = bs,
                           alphas = als,
                           alpha_bar = ab,
                           alpha_bar_shifted = shifted,
                           sqrt_alpha_bar = map sqrt ab,
                           minus_sqrt_alpha_bar = map (\<lambda>a. sqrt (1 - a)) ab,
                           sqrt_recip_alphas_cumprod = map (\<lambda>a. sqrt (1 / a)) ab,
                           sqrt_recipm1_alphas_cumprod = map (\<lambda>a. sqrt (1 / a - 1)) ab,
                           post_variance = pv,
                           post_log_variance_clipped = plvc,
                           p_variance = pvar,
                           p_log_variance = plogvar,
                           post_coeff_1 =
                             vdiv (vmul bs (map sqrt shifted)) (map (\<lambda>a. 1 - a) ab),
                           post_coeff_2 =
                             vdiv (vmul (map sqrt als) (map (\<lambda>a. 1 - a) shifted))
                                  (map (\<lambda>a. 1 - a) ab)\<rparr>))"

section \<open>The noise process\<close>

text \<open>
  The methods take the device \<open>dev\<close> of their input tensors (\<^verbatim>\<open>x.device\<close>); the tables
  live on \<open>const_dev\<close>, the device they were built for.
\<close>

definition predict_xstart_from_eps ::
  "precomputed \<Rightarrow> device \<Rightarrow> tensor \<Rightarrow> int list \<Rightarrow> tensor \<Rightarrow> error + tensor" where
  "predict_xstart_from_eps s dev x_t t eps =
     (if shape x_t \<noteq> shape eps then Inl AssertionError
      else
        bindE (extract_gather (const_dev s) (sqrt_recip_alphas_cumprod s) dev t) (\<lambda>c1.
        bindE (bc_mul c1 x_t) (\<lambda>a.
        bindE (extract_gather (const_dev s) (sqrt_recipm1_alphas_cumprod s) dev t) (\<lambda>c2.
        bindE (bc_mul c2 eps) (\<lambda>b.
        Inr (tsub a b))))))"

definition compute_noisy_input ::
  "precomputed \<Rightarrow> device \<Rightarrow> tensor \<Rightarrow> tensor \<Rightarrow> int list \<Rightarrow> error + tensor" where
  "compute_noisy_input s dev x_start eps t =
     (if shape eps \<noteq> shape x_start then Inl AssertionError
      else
        bindE (extract_gather (const_dev s) (sqrt_alpha_bar s) dev t) (\<lambda>c1.
        bindE (bc_mul c1 x_start) (\<lambda>a.
        bindE (extract_gather (const_dev s) (minus_sqrt_alpha_bar s) dev t) (\<lambda>c2.
        bindE (bc_mul c2 eps) (\<lambda>b.
        Inr (tadd a b))))))"

section \<open>The reverse chain\<close>

text \<open>
  The decoder is an opaque deterministic function of the noisy sample, the batch of
  timesteps and the conditioning. What a call does besides returning is counted in
  \<open>effects\<close>: the decoder evaluations and the draws from the noise source.
  The noise source gives, for the \<open>k\<close>-th draw of a call, the entry at batch row \<open>i\<close> and
  position \<open>j\<close>; \<^verbatim>\<open>torch.randn_like(x_t)\<close> fills the shape of \<open>x_t\<close> from it.
\<close>

type_synonym 'c decoder = "tensor \<Rightarrow> int list \<Rightarrow> 'c \<Rightarrow> tensor"

type_synonym noise = "nat \<Rightarrow> nat \<Rightarrow> nat \<Rightarrow> real"

record effects =
  decoder_calls :: nat
  noise_draws :: nat

definition no_effects :: effects where
  "no_effects = \<lparr>decoder_calls = 0, noise_draws = 0\<rparr>"

definition randn_like :: "noise \<Rightarrow> nat \<Rightarrow> tensor \<Rightarrow> tensor" where
  "randn_like zs k x_t =
     map (\<lambda>i. map (\<lambda>j. zs k i j) [0 ..< length (x_t ! i)]) [0 ..< length x_t]"

text \<open>
  \<^verbatim>\<open>get_posterior_mean_covariance\<close>. The decoder is evaluated first, as the argument of
  \<^verbatim>\<open>_predict_xstart_from_eps\<close>, so it has run once whatever fails afterwards.
\<close>

definition get_posterior_mean_covariance ::
  "precomputed \<Rightarrow> device \<Rightarrow> 'c decoder \<Rightarrow> tensor \<Rightarrow> int \<Rightarrow> bool \<Rightarrow> 'c \<Rightarrow> effects
     \<Rightarrow> effects \<times> (error + tensor \<times> real list \<times> real list)" where
  "get_posterior_mean_covariance s dev dec x_t t clip_denoised cond fx =
     (let B = length x_t;
          tb = replicate B t;
          eps = dec x_t tb cond;
          fx1 = fx\<lparr>decoder_calls := Suc (decoder_calls fx)\<rparr>
      in (fx1,
          bindE (predict_xstart_from_eps s dev x_t tb eps) (\<lambda>x_recons0.
          let x_recons = (if clip_denoised then clamp x_recons0 else x_recons0) in
          bindE (extract_gather (const_dev s) (post_coeff_1 s) dev tb) (\<lambda>c1.
          bindE (bc_mul c1 x_recons) (\<lambda>a.
          bindE (extract_gather (const_dev s) (post_coeff_2 s) dev tb) (\<lambda>c2.
          bindE (bc_mul c2 x_t) (\<lambda>b.
          bindE (extract_gather (const_dev s) (p_variance s) dev tb) (\<lambda>pv.
          bindE (extract_gather (const_dev s) (p_log_variance s) dev tb) (\<lambda>plv.
          Inr (tadd a b, pv, plv))))))))))"

text \<open>
  The update \<^verbatim>\<open>x = post_mean + nonzero_mask * torch.exp(0.5 * post_log_variance) * z\<close>.
\<close>

definition nonzero_mask :: "int \<Rightarrow> real" where
  "nonzero_mask t = (if t \<noteq> 0 then 1 else 0)"

definition langevin_step :: "int \<Rightarrow> tensor \<Rightarrow> real list \<Rightarrow> tensor \<Rightarrow> error + tensor" where
  "langevin_step t post_mean post_log_variance z =
     bindE (bc_mul (map (\<lambda>v. nonzero_mask t * exp (0.5 * v)) post_log_variance) z) (\<lambda>n.
     Inr (tadd post_mean n))"

subsection \<open>Step labels and the result dictionary\<close>

text \<open>\<^verbatim>\<open>str(i)\<close> of a Python integer: its decimal digits, with a minus sign when negative.\<close>

definition digit_char :: "nat \<Rightarrow> char" where
  "digit_char d = char_of (48 + d)"

function str_nat :: "nat \<Rightarrow> string" where
  "str_nat n = (if n < 10 then [digit_char n] else str_nat (n div 10) @ [digit_char (n mod 10)])"
  by pat_completeness auto
termination
  by (relation "measure id") auto

declare str_nat.simps [simp del]

definition str :: "int \<Rightarrow> string" where
  "str i = (if i < 0 then CHR ''-'' # str_nat (nat (- i)) else str_nat (nat i))"

text \<open>
  A Python dictionary keeps its keys in insertion order; an assignment to a key that is
  there replaces its value in place.
\<close>

type_synonym sample_dict = "(string \<times> tensor) list"

fun dict_set :: "sample_dict \<Rightarrow> string \<Rightarrow> tensor \<Rightarrow> sample_dict" where
  "dict_set [] k v = [(k, v)]"
| "dict_set ((k', v') # d) k v = (if k' = k then (k, v) # d else (k', v') # dict_set d k v)"

subsection \<open>The sampling loop\<close>

definition reversed_range :: "int \<Rightarrow> int list" where
  "reversed_range n = rev (map int [0 ..< nat n])"

definition enumerate_from0 :: "'a list \<Rightarrow> (int \<times> 'a) list" where
  "enumerate_from0 xs = zip (map int [0 ..< length xs]) xs"

text \<open>
  One iteration of the \<^verbatim>\<open>for\<close> loop per list element \<open>(idx, t)\<close>; an exception ends the
  call and the dictionary is lost.
\<close>

fun sample_loop ::
  "precomputed \<Rightarrow> device \<Rightarrow> 'c decoder \<Rightarrow> noise \<Rightarrow> tensor \<Rightarrow> 'c \<Rightarrow> int list
     \<Rightarrow> (int \<times> int) list \<Rightarrow> tensor \<Rightarrow> sample_dict \<Rightarrow> effects
     \<Rightarrow> effects \<times> (error + sample_dict)" where
  "sample_loop s dev dec zs x_t cond checkpoints [] x sample_dict fx = (fx, Inr sample_dict)"
| "sample_loop s dev dec zs x_t cond checkpoints ((idx, t) # its) x sample_dict fx =
     (let z = randn_like zs (noise_draws fx) x_t;
          fx1 = fx\<lparr>noise_draws := Suc (noise_draws fx)\<rparr>;
          (fx2, r) = get_posterior_mean_covariance s dev dec x t True cond fx1
      in case r of
           Inl e \<Rightarrow> (fx2, Inl e)
         | Inr (post_mean, post_var, post_log_var) \<Rightarrow>
             (case langevin_step t post_mean post_log_var z of
                Inl e \<Rightarrow> (fx2, Inl e)
              | Inr x' \<Rightarrow>
                  sample_loop s dev dec zs x_t cond checkpoints its x'
                    (if idx + 1 \<in> set checkpoints
                     then dict_set sample_dict (str (idx + 1)) x' else sample_dict)
                    fx2))"

text \<open>
  The lazy setup shared by \<^verbatim>\<open>sample\<close> and \<^verbatim>\<open>forward\<close>:
  \<^verbatim>\<open>if not self.setup_consts: self.setup_precomputed_const(dev); self.setup_consts = True\<close>.
\<close>

definition ensure_consts :: "ddpm \<Rightarrow> device \<Rightarrow> ddpm \<times> (error + precomputed)" where
  "ensure_consts m dev =
     (if \<not> setup_consts m then
        (case setup_precomputed_const m dev of
           Inl e \<Rightarrow> (m, Inl e)
         | Inr s \<Rightarrow> (m\<lparr>tables := Some s\<rparr>, Inr s))
      else (m, Inr (the (tables m))))"

definition sample ::
  "ddpm \<Rightarrow> 'c decoder \<Rightarrow> noise \<Rightarrow> device \<Rightarrow> tensor \<Rightarrow> 'c \<Rightarrow> int option \<Rightarrow> int list
     \<Rightarrow> ddpm \<times> effects \<times> (error + sample_dict)" where
  "sample m dec zs dev x_t cond n_steps checkpoints =
     (case ensure_consts m dev of
        (m1, Inl e) \<Rightarrow> (m1, no_effects, Inl e)
      | (m1, Inr s) \<Rightarrow>
          let num_steps = (case n_steps of None \<Rightarrow> T m | Some n \<Rightarrow> n);
              cps = (if checkpoints = [] then [num_steps] else checkpoints);
              (fx, r) = sample_loop s dev dec zs x_t cond cps
                          (enumerate_from0 (reversed_range num_steps)) x_t [] no_effects
          in (m1, fx, r))"

section \<open>The training path\<close>

definition forward ::
  "ddpm \<Rightarrow> 'c decoder \<Rightarrow> device \<Rightarrow> tensor \<Rightarrow> tensor \<Rightarrow> int list \<Rightarrow> 'c
     \<Rightarrow> ddpm \<times> effects \<times> (error + tensor)" where
  "forward m dec dev x eps t low_res =
     (case ensure_consts m dev of
        (m1, Inl e) \<Rightarrow> (m1, no_effects, Inl e)
      | (m1, Inr s) \<Rightarrow>
          (case compute_noisy_input s dev x eps t of
             Inl e \<Rightarrow> (m1, no_effects, Inl e)
           | Inr x_t \<Rightarrow> (m1, no_effects\<lparr>decoder_calls := 1\<rparr>, Inr (dec x_t t low_res))))"

section \<open>The chain, step by step\<close>

text \<open>
  The state of the reverse chain after \<open>k\<close> of the \<open>n\<close> steps, without the loop, the
  dictionary and the counters: step number \<open>idx + 1\<close> runs at timestep \<open>t = n - 1 - idx\<close>,
  takes the posterior mean and log-variance at the current state and adds the noise of
  draw \<open>idx\<close>. The claims about \<^verbatim>\<open>sample\<close> compare its dictionary with these states.
\<close>

definition posterior ::
  "precomputed \<Rightarrow> device \<Rightarrow> 'c decoder \<Rightarrow> tensor \<Rightarrow> int \<Rightarrow> 'c
     \<Rightarrow> error + tensor \<times> real list \<times> real list" where
  "posterior s dev dec x t cond =
     snd (get_posterior_mean_covariance s dev dec x t True cond no_effects)"

definition reverse_step ::
  "precomputed \<Rightarrow> device \<Rightarrow> 'c decoder \<Rightarrow> noise \<Rightarrow> tensor \<Rightarrow> 'c \<Rightarrow> nat \<Rightarrow> nat
     \<Rightarrow> tensor \<Rightarrow> error + tensor" where
  "reverse_step s dev dec zs x_t cond n idx x =
     bindE (posterior s dev dec x (int n - 1 - int idx) cond) (\<lambda>(post_mean, post_var, post_log_var).
       langevin_step (int n - 1 - int idx) post_mean post_log_var (randn_like zs idx x_t))"

fun chain_state ::
  "precomputed \<Rightarrow> device \<Rightarrow> 'c decoder \<Rightarrow> noise \<Rightarrow> tensor \<Rightarrow> 'c \<Rightarrow> nat \<Rightarrow> nat
     \<Rightarrow> error + tensor" where
  "chain_state s dev dec zs x_t cond n 0 = Inr x_t"
| "chain_state s dev dec zs x_t cond n (Suc k) =
     bindE (chain_state s dev dec zs x_t cond n k) (reverse_step s dev dec zs x_t cond n k)"

text \<open>
  The tables can serve every timestep in \<open>[0, n)\<close> to inputs on device \<open>dev\<close>: they
  live there and each table that the reverse chain reads has at least \<open>n\<close> entries.
\<close>

definition usable :: "precomputed \<Rightarrow> device \<Rightarrow> int \<Rightarrow> bool" where
  "usable s dev n \<longleftrightarrow>
     const_dev s = dev
     \<and> n \<le> int (length (sqrt_recip_alphas_cumprod s))
     \<and> n \<le> int (length (sqrt_recipm1_alphas_cumprod s))
     \<and> n \<le> int (length (post_coeff_1 s)) \<and> n \<le> int (length (post_coeff_2 s))
     \<and> n \<le> int (length (p_variance s)) \<and> n \<le> int (length (p_log_variance s))"

text \<open>
  The decoder contract: for the conditioning at hand, the predicted noise has the shape
  of the noisy sample.
\<close>

definition keeps_shape :: "'c decoder \<Rightarrow> 'c \<Rightarrow> bool" where
  "keeps_shape dec cond \<longleftrightarrow> (\<forall>x t. shape (dec x t cond) = shape x)"

text \<open>
  The entries the loop has recorded after \<open>k\<close> steps: one per step count in \<open>1..k\<close> that
  is a checkpoint, in the order of the steps.
\<close>

definition recorded ::
  "precomputed \<Rightarrow> device \<Rightarrow> 'c decoder \<Rightarrow> noise \<Rightarrow> tensor \<Rightarrow> 'c \<Rightarrow> int list \<Rightarrow> nat \<Rightarrow> nat
     \<Rightarrow> sample_dict" where
  "recorded s dev dec zs x_t cond cps n k =
     map (\<lambda>j. (str (int j), projr (chain_state s dev dec zs x_t cond n j)))
       (filter (\<lambda>j. int j \<in> set cps) [1 ..< Suc k])"

section \<open>Example inputs\<close>

text \<open>
  Inputs for the concrete instances below: a decoder that returns the noisy sample it is
  given, a noise source that draws 7 everywhere, and one that draws 7 in its first three
  draws and 0 afterwards.
\<close>

definition identity_decoder :: "'c decoder" where
  "identity_decoder x t c = x"

definition constant_noise :: noise where
  "constant_noise k i j = 7"

definition three_draws_noise :: noise where
  "three_draws_noise k i j = (if k < 3 then 7 else 0)"

section \<open>Basic facts\<close>

lemma bindE_Inr [simp]: "bindE (Inr v) f = f v" by (simp add: bindE_def)
lemma bindE_Inl [simp]: "bindE (Inl e) f = Inl e" by (simp add: bindE_def)

lemma length_cumprod_from [simp]: "length (cumprod_from acc as) = length as"
  by (induction as arbitrary: acc) auto

lemma length_cumprod [simp]: "length (cumprod as) = length as"
  by (simp add: cumprod_def)

lemma linspace_neg: "steps < 0 \<Longrightarrow> linspace a b steps = Inl RuntimeError"
  by (simp add: linspace_def)

lemma linspace_ok: "0 \<le> steps \<Longrightarrow> linspace a b steps = Inr (linear_table a b steps)"
  by (auto simp: linspace_def linear_table_def)

lemma length_linear_table [simp]: "length (linear_table a b steps) = nat steps"
  by (simp add: linear_table_def)

lemma length_vmul [simp]: "length (vmul a b) = min (length a) (length b)"
  by (simp add: vmul_def)
lemma length_vdiv [simp]: "length (vdiv a b) = min (length a) (length b)"
  by (simp add: vdiv_def)

lemma setup_negative: "T m < 0 \<Longrightarrow> setup_precomputed_const m dev = Inl RuntimeError"
  by (simp add: setup_precomputed_const_def linspace_neg)

lemma setup_zero: "T m = 0 \<Longrightarrow> setup_precomputed_const m dev = Inl AssertionError"
  by (simp add: setup_precomputed_const_def linspace_ok Let_def)

lemma setup_one: "T m = 1 \<Longrightarrow> setup_precomputed_const m dev = Inl IndexError"
  by (simp add: setup_precomputed_const_def linspace_ok Let_def)

lemma setup_key:
  "2 \<le> T m \<Longrightarrow> var_type m \<noteq> ''fixedlarge'' \<Longrightarrow> var_type m \<noteq> ''fixedsmall''
   \<Longrightarrow> setup_precomputed_const m dev = Inl KeyError"
  by (simp add: setup_precomputed_const_def linspace_ok Let_def)

lemma setup_succeeds:
  "2 \<le> T m \<Longrightarrow> var_type m = ''fixedlarge'' \<or> var_type m = ''fixedsmall''
   \<Longrightarrow> \<exists>s. setup_precomputed_const m dev = Inr s"
  by (auto simp add: setup_precomputed_const_def linspace_ok Let_def)

lemma linear_table_nth:
  "i < nat steps \<Longrightarrow>
   linear_table a b steps ! i = a + real i * ((b - a) / real_of_int (steps - 1))"
  by (simp add: linear_table_def)

lemma convex_step:
  assumes "0 \<le> l" "l \<le> 1"
  shows "min a b \<le> a + l * (b - a)" and "a + l * (b - a) \<le> max a (b::real)"
proof -
  have e: "a + l * (b - a) = (1 - l) * a + l * b" by (simp add: algebra_simps)
  have "(1 - l) * min a b + l * min a b \<le> (1 - l) * a + l * b"
    using assms by (intro add_mono mult_left_mono) auto
  then show "min a b \<le> a + l * (b - a)" unfolding e by (simp add: algebra_simps)
  have "(1 - l) * a + l * b \<le> (1 - l) * max a b + l * max a b"
    using assms by (intro add_mono mult_left_mono) auto
  then show "a + l * (b - a) \<le> max a b" unfolding e by (simp add: algebra_simps)
qed

lemma linear_table_bounds:
  assumes "2 \<le> steps" "i < nat steps"
  shows "min a b \<le> linear_table a b steps ! i" "linear_table a b steps ! i \<le> max a b"
proof -
  define l where "l = real i / real_of_int (steps - 1)"
  have l: "0 \<le> l" "l \<le> 1" using assms by (auto simp: l_def)
  have "linear_table a b steps ! i = a + l * (b - a)"
    using assms by (simp add: linear_table_nth l_def)
  then show "min a b \<le> linear_table a b steps ! i" "linear_table a b steps ! i \<le> max a b"
    using convex_step[OF l, of a b] by simp_all
qed

lemma linear_table_strict:
  assumes "a < b" "2 \<le> steps" "i < j" "j < nat steps"
  shows "linear_table a b steps ! i < linear_table a b steps ! j"
proof -
  have "0 < (b - a) / real_of_int (steps - 1)" using assms by simp
  moreover have "real i < real j" using assms by simp
  ultimately have "real i * ((b - a) / real_of_int (steps - 1)) < real j * ((b - a) / real_of_int (steps - 1))"
    by (rule mult_strict_right_mono[rotated])
  then show ?thesis using assms by (simp add: linear_table_nth)
qed

lemma cumprod_from_bounds:
  "0 < acc \<Longrightarrow> \<forall>a\<in>set xs. 0 < a \<and> a < 1 \<Longrightarrow>
   \<forall>v\<in>set (cumprod_from acc xs). 0 < v \<and> v < acc"
proof (induction xs arbitrary: acc)
  case Nil
  then show ?case by simp
next
  case (Cons a xs)
  have a: "0 < a" "a < 1" using Cons.prems by auto
  have p: "0 < acc * a" "acc * a < acc" using a Cons.prems(1) by auto
  have "\<forall>v\<in>set (cumprod_from (acc * a) xs). 0 < v \<and> v < acc * a"
    using Cons.IH[OF p(1)] Cons.prems(2) by simp
  then show ?case using p by fastforce
qed

lemma cumprod_from_decreasing:
  "0 < acc \<Longrightarrow> \<forall>a\<in>set xs. 0 < a \<and> a < 1 \<Longrightarrow>
   sorted_wrt (\<lambda>u v. v < u) (cumprod_from acc xs)"
proof (induction xs arbitrary: acc)
  case Nil
  then show ?case by simp
next
  case (Cons a xs)
  have a: "0 < a" "a < 1" using Cons.prems by auto
  have p: "0 < acc * a" using a Cons.prems(1) by auto
  have b: "\<forall>v\<in>set (cumprod_from (acc * a) xs). 0 < v \<and> v < acc * a"
    using cumprod_from_bounds[OF p, of xs] Cons.prems(2) by simp
  have "sorted_wrt (\<lambda>u v. v < u) (cumprod_from (acc * a) xs)"
    using Cons.IH[OF p] Cons.prems(2) by simp
  then show ?case using b by simp
qed

subsection \<open>The tables of a successful setup\<close>

lemma setup_Inr_T: "setup_precomputed_const m dev = Inr s \<Longrightarrow> 2 \<le> T m"
proof (rule ccontr)
  assume a: "setup_precomputed_const m dev = Inr s" and "\<not> 2 \<le> T m"
  then have "T m < 0 \<or> T m = 0 \<or> T m = 1" by arith
  then show False using a by (auto simp: setup_negative setup_zero setup_one)
qed

lemma setup_Inr_var_type:
  "setup_precomputed_const m dev = Inr s \<Longrightarrow>
   var_type m = ''fixedlarge'' \<or> var_type m = ''fixedsmall''"
  using setup_key[of m dev] setup_Inr_T[of m dev s] by auto

lemma setup_const_dev:
  "setup_precomputed_const m dev = Inr s \<Longrightarrow>
   const_dev s = dev"
  using setup_Inr_T[of m dev s]
  by (auto simp add: setup_precomputed_const_def linspace_ok Let_def split: if_splits)

lemma setup_betas:
  "setup_precomputed_const m dev = Inr s \<Longrightarrow>
   betas s = linear_table (beta_1 m) (beta_2 m) (T m)"
  using setup_Inr_T[of m dev s]
  by (auto simp add: setup_precomputed_const_def linspace_ok Let_def split: if_splits)

lemma setup_alphas:
  "setup_precomputed_const m dev = Inr s \<Longrightarrow>
   alphas s = map (\<lambda>b. 1 - b) (betas s)"
  using setup_Inr_T[of m dev s]
  by (auto simp add: setup_precomputed_const_def linspace_ok Let_def split: if_splits)

lemma setup_alpha_bar:
  "setup_precomputed_const m dev = Inr s \<Longrightarrow>
   alpha_bar s = cumprod (alphas s)"
  using setup_Inr_T[of m dev s]
  by (auto simp add: setup_precomputed_const_def linspace_ok Let_def split: if_splits)

lemma setup_alpha_bar_shifted:
  "setup_precomputed_const m dev = Inr s \<Longrightarrow>
   alpha_bar_shifted s = 1 # butlast (alpha_bar s)"
  using setup_Inr_T[of m dev s]
  by (auto simp add: setup_precomputed_const_def linspace_ok Let_def split: if_splits)

lemma setup_sqrt_alpha_bar:
  "setup_precomputed_const m dev = Inr s \<Longrightarrow>
   sqrt_alpha_bar s = map sqrt (alpha_bar s)"
  using setup_Inr_T[of m dev s]
  by (auto simp add: setup_precomputed_const_def linspace_ok Let_def split: if_splits)

lemma setup_minus_sqrt_alpha_bar:
  "setup_precomputed_const m dev = Inr s \<Longrightarrow>
   minus_sqrt_alpha_bar s = map (\<lambda>a. sqrt (1 - a)) (alpha_bar s)"
  using setup_Inr_T[of m dev s]
  by (auto simp add: setup_precomputed_const_def linspace_ok Let_def split: if_splits)

lemma setup_sqrt_recip:
  "setup_precomputed_const m dev = Inr s \<Longrightarrow>
   sqrt_recip_alphas_cumprod s = map (\<lambda>a. sqrt (1 / a)) (alpha_bar s)"
  using setup_Inr_T[of m dev s]
  by (auto simp add: setup_precomputed_const_def linspace_ok Let_def split: if_splits)

lemma setup_sqrt_recipm1:
  "setup_precomputed_const m dev = Inr s \<Longrightarrow>
   sqrt_recipm1_alphas_cumprod s = map (\<lambda>a. sqrt (1 / a - 1)) (alpha_bar s)"
  using setup_Inr_T[of m dev s]
  by (auto simp add: setup_precomputed_const_def linspace_ok Let_def split: if_splits)

lemma setup_post_variance:
  "setup_precomputed_const m dev = Inr s \<Longrightarrow>
   post_variance s =
     vdiv (vmul (betas s) (map (\<lambda>a. 1 - a) (alpha_bar_shifted s)))
          (map (\<lambda>a. 1 - a) (alpha_bar s))"
  using setup_Inr_T[of m dev s]
  by (auto simp add: setup_precomputed_const_def linspace_ok Let_def split: if_splits)

lemma setup_post_log_variance_clipped:
  "setup_precomputed_const m dev = Inr s \<Longrightarrow>
   post_log_variance_clipped s = map ln (post_variance s ! 1 # drop 1 (post_variance s))"
  using setup_Inr_T[of m dev s]
  by (auto simp add: setup_precomputed_const_def linspace_ok Let_def split: if_splits)

lemma setup_post_coeff_1:
  "setup_precomputed_const m dev = Inr s \<Longrightarrow>
   post_coeff_1 s =
     vdiv (vmul (betas s) (map sqrt (alpha_bar_shifted s)))
          (map (\<lambda>a. 1 - a) (alpha_bar s))"
  using setup_Inr_T[of m dev s]
  by (auto simp add: setup_precomputed_const_def linspace_ok Let_def split: if_splits)

lemma setup_post_coeff_2:
  "setup_precomputed_const m dev = Inr s \<Longrightarrow>
   post_coeff_2 s =
     vdiv (vmul (map sqrt (alphas s)) (map (\<lambda>a. 1 - a) (alpha_bar_shifted s)))
          (map (\<lambda>a. 1 - a) (alpha_bar s))"
  using setup_Inr_T[of m dev s]
  by (auto simp add: setup_precomputed_const_def linspace_ok Let_def split: if_splits)

lemma setup_large:
  "setup_precomputed_const m dev = Inr s \<Longrightarrow>
   var_type m = ''fixedlarge'' \<Longrightarrow>
   p_variance s = betas s \<and>
   p_log_variance s = map ln (post_variance s ! 1 # drop 1 (betas s))"
  using setup_Inr_T[of m dev s]
  by (auto simp add: setup_precomputed_const_def linspace_ok Let_def split: if_splits)

lemma setup_small:
  "setup_precomputed_const m dev = Inr s \<Longrightarrow>
   var_type m = ''fixedsmall'' \<Longrightarrow>
   p_variance s = post_variance s \<and> p_log_variance s = post_log_variance_clipped s"
  using setup_Inr_T[of m dev s]
  by (auto simp add: setup_precomputed_const_def linspace_ok Let_def split: if_splits)

lemma setup_lengths:
  assumes "setup_precomputed_const m dev = Inr s"
  shows "length (betas s) = nat (T m)"
    and "length (alphas s) = nat (T m)"
    and "length (alpha_bar s) = nat (T m)"
    and "length (alpha_bar_shifted s) = nat (T m)"
    and "length (sqrt_alpha_bar s) = nat (T m)"
    and "length (minus_sqrt_alpha_bar s) = nat (T m)"
    and "length (sqrt_recip_alphas_cumprod s) = nat (T m)"
    and "length (sqrt_recipm1_alphas_cumprod s) = nat (T m)"
    and "length (post_variance s) = nat (T m)"
    and "length (post_log_variance_clipped s) = nat (T m)"
    and "length (post_coeff_1 s) = nat (T m)"
    and "length (post_coeff_2 s) = nat (T m)"
    and "length (p_variance s) = nat (T m)"
    and "length (p_log_variance s) = nat (T m)"
proof -
  have T2: "2 \<le> T m" by (rule setup_Inr_T[OF assms])
  show b: "length (betas s) = nat (T m)" by (simp add: setup_betas[OF assms])
  show a: "length (alphas s) = nat (T m)" by (simp add: setup_alphas[OF assms] b)
  show ab: "length (alpha_bar s) = nat (T m)" by (simp add: setup_alpha_bar[OF assms] a)
  show sh: "length (alpha_bar_shifted s) = nat (T m)"
    using T2 by (simp add: setup_alpha_bar_shifted[OF assms] ab)
  show "length (sqrt_alpha_bar s) = nat (T m)" by (simp add: setup_sqrt_alpha_bar[OF assms] ab)
  show "length (minus_sqrt_alpha_bar s) = nat (T m)"
    by (simp add: setup_minus_sqrt_alpha_bar[OF assms] ab)
  show "length (sqrt_recip_alphas_cumprod s) = nat (T m)"
    by (simp add: setup_sqrt_recip[OF assms] ab)
  show "length (sqrt_recipm1_alphas_cumprod s) = nat (T m)"
    by (simp add: setup_sqrt_recipm1[OF assms] ab)
  show pv: "length (post_variance s) = nat (T m)"
    by (simp add: setup_post_variance[OF assms] ab b sh)
  show plc: "length (post_log_variance_clipped s) = nat (T m)"
    using T2 by (simp add: setup_post_log_variance_clipped[OF assms] pv)
  show "length (post_coeff_1 s) = nat (T m)"
    by (simp add: setup_post_coeff_1[OF assms] ab b sh)
  show "length (post_coeff_2 s) = nat (T m)"
    by (simp add: setup_post_coeff_2[OF assms] ab a sh)
  have vt: "var_type m = ''fixedlarge'' \<or> var_type m = ''fixedsmall''"
    by (rule setup_Inr_var_type[OF assms])
  show "length (p_variance s) = nat (T m)"
    using vt setup_large[OF assms] setup_small[OF assms] b pv by auto
  show "length (p_log_variance s) = nat (T m)"
    using vt setup_large[OF assms] setup_small[OF assms] b plc T2 by auto
qed

lemma betas_range:
  assumes "setup_precomputed_const m dev = Inr s"
    and "0 < beta_1 m" "beta_1 m < 1" "0 < beta_2 m" "beta_2 m < 1"
  shows "\<forall>b\<in>set (betas s). 0 < b \<and> b < 1"
proof
  fix b assume "b \<in> set (betas s)"
  then obtain i where i: "i < nat (T m)" and b: "b = linear_table (beta_1 m) (beta_2 m) (T m) ! i"
    by (auto simp: setup_betas[OF assms(1)] in_set_conv_nth)
  have "min (beta_1 m) (beta_2 m) \<le> b" "b \<le> max (beta_1 m) (beta_2 m)"
    unfolding b using linear_table_bounds[OF setup_Inr_T[OF assms(1)] i] by simp_all
  then show "0 < b \<and> b < 1" using assms(2-5) by auto
qed

lemma betas_increasing:
  assumes "setup_precomputed_const m dev = Inr s" and "beta_1 m < beta_2 m"
  shows "sorted_wrt (<) (betas s)"
  unfolding sorted_wrt_iff_nth_less
  using linear_table_strict[OF assms(2) setup_Inr_T[OF assms(1)]]
  by (simp add: setup_betas[OF assms(1)])

lemma alphas_range:
  assumes "setup_precomputed_const m dev = Inr s"
    and "0 < beta_1 m" "beta_1 m < 1" "0 < beta_2 m" "beta_2 m < 1"
  shows "\<forall>a\<in>set (alphas s). 0 < a \<and> a < 1"
  using betas_range[OF assms] by (auto simp: setup_alphas[OF assms(1)])

lemma alpha_bar_range:
  assumes "setup_precomputed_const m dev = Inr s"
    and "0 < beta_1 m" "beta_1 m < 1" "0 < beta_2 m" "beta_2 m < 1"
  shows "\<forall>a\<in>set (alpha_bar s). 0 < a \<and> a < 1"
  unfolding setup_alpha_bar[OF assms(1)] cumprod_def
  by (rule cumprod_from_bounds[OF _ alphas_range[OF assms]]) simp

lemma alpha_bar_decreasing:
  assumes "setup_precomputed_const m dev = Inr s"
    and "0 < beta_1 m" "beta_1 m < 1" "0 < beta_2 m" "beta_2 m < 1"
  shows "sorted_wrt (\<lambda>u v. v < u) (alpha_bar s)"
  unfolding setup_alpha_bar[OF assms(1)] cumprod_def
  by (rule cumprod_from_decreasing[OF _ alphas_range[OF assms]]) simp

section \<open>Claims about the schedule\<close>

text \<open>
  C4 (as amended). For \<open>0 < beta_1 < beta_2 < 1\<close>, \<open>T \<ge> 2\<close> and one of the two variance
  types, the setup returns tables such that: each of the fourteen has exactly \<open>T\<close> entries;
  \<open>alpha_bar_shifted[0]\<close> is exactly 1; \<open>alpha_bar\<close> is non-increasing with every entry
  in \<open>(0, 1]\<close>; \<open>betas\<close> is strictly increasing with every entry in \<open>(0, 1)\<close>.
  With \<open>T = 1\<close> the setup raises and no schedule is built.
\<close>

theorem schedule_invariants:
  assumes "0 < beta_1 m" and "beta_1 m < beta_2 m" and "beta_2 m < 1" and "2 \<le> T m"
    and "var_type m = ''fixedlarge'' \<or> var_type m = ''fixedsmall''"
  shows "\<exists>s. setup_precomputed_const m dev = Inr s
           \<and> map length [betas s, alphas s, alpha_bar s, alpha_bar_shifted s,
                 sqrt_alpha_bar s, minus_sqrt_alpha_bar s, sqrt_recip_alphas_cumprod s,
                 sqrt_recipm1_alphas_cumprod s, post_variance s, post_log_variance_clipped s,
                 p_variance s, p_log_variance s, post_coeff_1 s, post_coeff_2 s]
               = replicate 14 (nat (T m))
           \<and> alpha_bar_shifted s ! 0 = 1
           \<and> sorted_wrt (\<ge>) (alpha_bar s)
           \<and> list_all (\<lambda>a. 0 < a \<and> a \<le> 1) (alpha_bar s)
           \<and> sorted_wrt (<) (betas s)
           \<and> list_all (\<lambda>b. 0 < b \<and> b < 1) (betas s)"
proof -
  obtain s where s: "setup_precomputed_const m dev = Inr s"
    using setup_succeeds[OF assms(4,5)] by blast
  have b1: "beta_1 m < 1" and b2: "0 < beta_2 m" using assms(1-3) by simp_all
  note rng = s assms(1) b1 b2 assms(3)
  have "sorted_wrt (\<lambda>u v. v < u) (alpha_bar s)" by (rule alpha_bar_decreasing[OF rng])
  then have dec: "sorted_wrt (\<ge>) (alpha_bar s)"
    by (rule sorted_wrt_mono_rel[rotated]) simp
  have ab: "list_all (\<lambda>a. 0 < a \<and> a \<le> 1) (alpha_bar s)"
    using alpha_bar_range[OF rng] by (auto simp: list_all_iff)
  have bs: "list_all (\<lambda>b. 0 < b \<and> b < 1) (betas s)"
    using betas_range[OF rng] by (simp add: list_all_iff)
  have len: "map length [betas s, alphas s, alpha_bar s, alpha_bar_shifted s,
                 sqrt_alpha_bar s, minus_sqrt_alpha_bar s, sqrt_recip_alphas_cumprod s,
                 sqrt_recipm1_alphas_cumprod s, post_variance s, post_log_variance_clipped s,
                 p_variance s, p_log_variance s, post_coeff_1 s, post_coeff_2 s]
               = replicate 14 (nat (T m))"
    by (simp add: setup_lengths[OF s] numeral_eq_Suc)
  have sh: "alpha_bar_shifted s ! 0 = 1" by (simp add: setup_alpha_bar_shifted[OF s])
  show ?thesis using s len sh dec ab betas_increasing[OF s assms(2)] bs by blast
qed

text \<open>
  C4 as stated admits \<open>T = 1\<close>; there the read of \<open>post_variance[1]\<close> raises IndexError.
\<close>

theorem schedule_one_step_counterexample:
  "setup_precomputed_const (init (1/10) (1/5) 1 ''fixedlarge'') CPU = Inl IndexError"
  by (simp add: setup_one init_def)

text \<open>The amended C4 at \<open>beta_1 = 0.1\<close>, \<open>beta_2 = 0.2\<close>, \<open>T = 2\<close>.\<close>

theorem schedule_invariants_witness:
  "\<exists>s. setup_precomputed_const (init (1/10) (1/5) 2 ''fixedlarge'') CPU = Inr s
           \<and> map length [betas s, alphas s, alpha_bar s, alpha_bar_shifted s,
                 sqrt_alpha_bar s, minus_sqrt_alpha_bar s, sqrt_recip_alphas_cumprod s,
                 sqrt_recipm1_alphas_cumprod s, post_variance s, post_log_variance_clipped s,
                 p_variance s, p_log_variance s, post_coeff_1 s, post_coeff_2 s]
               = replicate 14 2
           \<and> alpha_bar_shifted s ! 0 = 1
           \<and> sorted_wrt (\<ge>) (alpha_bar s)
           \<and> list_all (\<lambda>a. 0 < a \<and> a \<le> 1) (alpha_bar s)
           \<and> sorted_wrt (<) (betas s)
           \<and> list_all (\<lambda>b. 0 < b \<and> b < 1) (betas s)"
  using schedule_invariants[of "init (1/10) (1/5) 2 ''fixedlarge''" CPU]
  by (simp add: init_def)

lemma setup_linspace:
  "setup_precomputed_const m dev = Inr s \<Longrightarrow>
   linspace (beta_1 m) (beta_2 m) (T m) = Inr (betas s)"
  using setup_Inr_T[of m dev s] by (simp add: linspace_ok setup_betas)

lemma linspace_two: "linspace a b 2 = Inr [a, b]"
  by (simp add: linspace_def upt_rec)

lemma cumprod_two: "cumprod [a, b] = [a, a * b]"
  by (simp add: cumprod_def)

lemma two_step_tables:
  assumes "linspace (1/10) (1/5) 2 = Inr (betas s)"
    and "alpha_bar s = cumprod (map (\<lambda>b. 1 - b) (betas s))"
    and "alpha_bar_shifted s = 1 # butlast (alpha_bar s)"
    and "post_variance s =
           vdiv (vmul (betas s) (map (\<lambda>a. 1 - a) (alpha_bar_shifted s)))
                (map (\<lambda>a. 1 - a) (alpha_bar s))"
  shows "betas s = [1/10, 1/5]" and "post_variance s = [0, 1/14]"
proof -
  show bs: "betas s = [1/10, 1/5]" using assms(1) by (simp add: linspace_two)
  have ab: "alpha_bar s = [9/10, 18/25]" by (simp add: assms(2) bs cumprod_two)
  show "post_variance s = [0, 1/14]"
    by (simp add: assms(4) assms(3) ab bs vdiv_def vmul_def)
qed

text \<open>
  C5. Whenever the setup can succeed (\<open>T \<ge> 2\<close>), it returns the tables computed from the
  hyperparameters (the betas of \<open>linspace\<close>, their cumulative product, the posterior
  variance) and selects the pair by the variance type: \<open>fixedlarge\<close> gives
  \<open>(betas, log(cat([post_variance[1]], betas[1:])))\<close>, \<open>fixedsmall\<close> gives
  \<open>(post_variance, log(cat([post_variance[1]], post_variance[1:])))\<close>, and any other
  variance type is a KeyError; the clipped posterior log-variance has the logarithm of
  \<open>post_variance[1]\<close> at index 0, in place of that of \<open>post_variance[0]\<close>.
\<close>

theorem variance_selection:
  assumes "2 \<le> T m"
  shows "(\<exists>s. setup_precomputed_const (m\<lparr>var_type := ''fixedlarge''\<rparr>) dev = Inr s
            \<and> linspace (beta_1 m) (beta_2 m) (T m) = Inr (betas s)
            \<and> alpha_bar s = cumprod (map (\<lambda>b. 1 - b) (betas s))
            \<and> alpha_bar_shifted s = 1 # butlast (alpha_bar s)
            \<and> post_variance s =
                vdiv (vmul (betas s) (map (\<lambda>a. 1 - a) (alpha_bar_shifted s)))
                     (map (\<lambda>a. 1 - a) (alpha_bar s))
            \<and> p_variance s = betas s
            \<and> p_log_variance s = map ln (post_variance s ! 1 # drop 1 (betas s))
            \<and> post_log_variance_clipped s
                = map ln (post_variance s ! 1 # drop 1 (post_variance s)))
       \<and> (\<exists>s. setup_precomputed_const (m\<lparr>var_type := ''fixedsmall''\<rparr>) dev = Inr s
            \<and> linspace (beta_1 m) (beta_2 m) (T m) = Inr (betas s)
            \<and> alpha_bar s = cumprod (map (\<lambda>b. 1 - b) (betas s))
            \<and> alpha_bar_shifted s = 1 # butlast (alpha_bar s)
            \<and> post_variance s =
                vdiv (vmul (betas s) (map (\<lambda>a. 1 - a) (alpha_bar_shifted s)))
                     (map (\<lambda>a. 1 - a) (alpha_bar s))
            \<and> p_variance s = post_variance s
            \<and> p_log_variance s = map ln (post_variance s ! 1 # drop 1 (post_variance s))
            \<and> post_log_variance_clipped s
                = map ln (post_variance s ! 1 # drop 1 (post_variance s)))
       \<and> (\<forall>vt. vt \<noteq> ''fixedlarge'' \<and> vt \<noteq> ''fixedsmall'' \<longrightarrow>
             setup_precomputed_const (m\<lparr>var_type := vt\<rparr>) dev = Inl KeyError)"
proof (intro conjI allI impI)
  let ?m = "m\<lparr>var_type := ''fixedlarge''\<rparr>"
  obtain s where s: "setup_precomputed_const ?m dev = Inr s"
    using setup_succeeds[of ?m dev] assms by auto
  have 1: "linspace (beta_1 m) (beta_2 m) (T m) = Inr (betas s)"
    using setup_linspace[OF s] by simp
  have 2: "alpha_bar s = cumprod (map (\<lambda>b. 1 - b) (betas s))"
    using setup_alpha_bar[OF s] setup_alphas[OF s] by simp
  have 5: "p_variance s = betas s"
    and 6: "p_log_variance s = map ln (post_variance s ! 1 # drop 1 (betas s))"
    using setup_large[OF s] by simp_all
  from s 1 2 setup_alpha_bar_shifted[OF s] setup_post_variance[OF s] 5 6
    setup_post_log_variance_clipped[OF s]
  show "\<exists>s. setup_precomputed_const ?m dev = Inr s
            \<and> linspace (beta_1 m) (beta_2 m) (T m) = Inr (betas s)
            \<and> alpha_bar s = cumprod (map (\<lambda>b. 1 - b) (betas s))
            \<and> alpha_bar_shifted s = 1 # butlast (alpha_bar s)
            \<and> post_variance s =
                vdiv (vmul (betas s) (map (\<lambda>a. 1 - a) (alpha_bar_shifted s)))
                     (map (\<lambda>a. 1 - a) (alpha_bar s))
            \<and> p_variance s = betas s
            \<and> p_log_variance s = map ln (post_variance s ! 1 # drop 1 (betas s))
            \<and> post_log_variance_clipped s
                = map ln (post_variance s ! 1 # drop 1 (post_variance s))"
    by (intro exI[of _ s] conjI)
next
  let ?m = "m\<lparr>var_type := ''fixedsmall''\<rparr>"
  obtain s where s: "setup_precomputed_const ?m dev = Inr s"
    using setup_succeeds[of ?m dev] assms by auto
  have 1: "linspace (beta_1 m) (beta_2 m) (T m) = Inr (betas s)"
    using setup_linspace[OF s] by simp
  have 2: "alpha_bar s = cumprod (map (\<lambda>b. 1 - b) (betas s))"
    using setup_alpha_bar[OF s] setup_alphas[OF s] by simp
  have 5: "p_variance s = post_variance s"
    and 6: "p_log_variance s = map ln (post_variance s ! 1 # drop 1 (post_variance s))"
    using setup_small[OF s] setup_post_log_variance_clipped[OF s] by simp_all
  from s 1 2 setup_alpha_bar_shifted[OF s] setup_post_variance[OF s] 5 6
    setup_post_log_variance_clipped[OF s]
  show "\<exists>s. setup_precomputed_const ?m dev = Inr s
            \<and> linspace (beta_1 m) (beta_2 m) (T m) = Inr (betas s)
            \<and> alpha_bar s = cumprod (map (\<lambda>b. 1 - b) (betas s))
            \<and> alpha_bar_shifted s = 1 # butlast (alpha_bar s)
            \<and> post_variance s =
                vdiv (vmul (betas s) (map (\<lambda>a. 1 - a) (alpha_bar_shifted s)))
                     (map (\<lambda>a. 1 - a) (alpha_bar s))
            \<and> p_variance s = post_variance s
            \<and> p_log_variance s = map ln (post_variance s ! 1 # drop 1 (post_variance s))
            \<and> post_log_variance_clipped s
                = map ln (post_variance s ! 1 # drop 1 (post_variance s))"
    by (intro exI[of _ s] conjI)
next
  fix vt :: string assume "vt \<noteq> ''fixedlarge'' \<and> vt \<noteq> ''fixedsmall''"
  then show "setup_precomputed_const (m\<lparr>var_type := vt\<rparr>) dev = Inl KeyError"
    using setup_key[of "m\<lparr>var_type := vt\<rparr>" dev] assms by simp
qed

text \<open>
  C5 at \<open>beta_1 = 0.1\<close>, \<open>beta_2 = 0.2\<close>, \<open>T = 2\<close>, with the values of the tables: the
  posterior variance is \<open>[0, 1/14]\<close>, and the two variance types select different pairs.
\<close>

theorem variance_selection_witness:
  "(2::int) \<le> 2
   \<and> (\<exists>s. setup_precomputed_const (init (1/10) (1/5) 2 ''fixedlarge'') CPU = Inr s
          \<and> betas s = [1/10, 1/5]
          \<and> post_variance s = [0, 1/14]
          \<and> p_variance s = [1/10, 1/5]
          \<and> p_log_variance s = [ln (1/14), ln (1/5)]
          \<and> post_log_variance_clipped s = [ln (1/14), ln (1/14)])
   \<and> (\<exists>s. setup_precomputed_const (init (1/10) (1/5) 2 ''fixedsmall'') CPU = Inr s
          \<and> betas s = [1/10, 1/5]
          \<and> post_variance s = [0, 1/14]
          \<and> p_variance s = [0, 1/14]
          \<and> p_log_variance s = [ln (1/14), ln (1/14)]
          \<and> post_log_variance_clipped s = [ln (1/14), ln (1/14)])
   \<and> setup_precomputed_const (init (1/10) (1/5) 2 ''learned'') CPU = Inl KeyError"
proof -
  let ?m = "init (1/10) (1/5) 2 ''fixedlarge''"
  have T: "2 \<le> T ?m" by (simp add: init_def)
  have l: "?m\<lparr>var_type := ''fixedlarge''\<rparr> = init (1/10) (1/5) 2 ''fixedlarge''"
    and sm: "?m\<lparr>var_type := ''fixedsmall''\<rparr> = init (1/10) (1/5) 2 ''fixedsmall''"
    and le: "?m\<lparr>var_type := ''learned''\<rparr> = init (1/10) (1/5) 2 ''learned''"
    by (simp_all add: init_def)
  have b: "beta_1 ?m = 1/10" "beta_2 ?m = 1/5" "T ?m = 2" by (simp_all add: init_def)
  note th = variance_selection[OF T, of CPU, unfolded l sm b]
  have a: "\<exists>s. setup_precomputed_const (init (1/10) (1/5) 2 ''fixedlarge'') CPU = Inr s
          \<and> betas s = [1/10, 1/5]
          \<and> post_variance s = [0, 1/14]
          \<and> p_variance s = [1/10, 1/5]
          \<and> p_log_variance s = [ln (1/14), ln (1/5)]
          \<and> post_log_variance_clipped s = [ln (1/14), ln (1/14)]"
  proof -
    from th[THEN conjunct1] obtain s where
      s: "setup_precomputed_const (init (1/10) (1/5) 2 ''fixedlarge'') CPU = Inr s"
      and bs: "linspace (1/10) (1/5) 2 = Inr (betas s)"
      and ab: "alpha_bar s = cumprod (map (\<lambda>b. 1 - b) (betas s))"
      and sh: "alpha_bar_shifted s = 1 # butlast (alpha_bar s)"
      and pv: "post_variance s =
                vdiv (vmul (betas s) (map (\<lambda>a. 1 - a) (alpha_bar_shifted s)))
                     (map (\<lambda>a. 1 - a) (alpha_bar s))"
      and p: "p_variance s = betas s"
      and pl: "p_log_variance s = map ln (post_variance s ! 1 # drop 1 (betas s))"
      and pc: "post_log_variance_clipped s
                = map ln (post_variance s ! 1 # drop 1 (post_variance s))"
      by (elim exE conjE)
    note v = two_step_tables[OF bs ab sh pv]
    have "p_variance s = [1/10, 1/5]" by (simp add: p v)
    moreover have "p_log_variance s = [ln (1/14), ln (1/5)]" by (simp add: pl v)
    moreover have "post_log_variance_clipped s = [ln (1/14), ln (1/14)]" by (simp add: pc v)
    ultimately show ?thesis using s v by (intro exI[of _ s] conjI)
  qed
  have c: "\<exists>s. setup_precomputed_const (init (1/10) (1/5) 2 ''fixedsmall'') CPU = Inr s
          \<and> betas s = [1/10, 1/5]
          \<and> post_variance s = [0, 1/14]
          \<and> p_variance s = [0, 1/14]
          \<and> p_log_variance s = [ln (1/14), ln (1/14)]
          \<and> post_log_variance_clipped s = [ln (1/14), ln (1/14)]"
  proof -
    from th[THEN conjunct2, THEN conjunct1] obtain s where
      s: "setup_precomputed_const (init (1/10) (1/5) 2 ''fixedsmall'') CPU = Inr s"
      and bs: "linspace (1/10) (1/5) 2 = Inr (betas s)"
      and ab: "alpha_bar s = cumprod (map (\<lambda>b. 1 - b) (betas s))"
      and sh: "alpha_bar_shifted s = 1 # butlast (alpha_bar s)"
      and pv: "post_variance s =
                vdiv (vmul (betas s) (map (\<lambda>a. 1 - a) (alpha_bar_shifted s)))
                     (map (\<lambda>a. 1 - a) (alpha_bar s))"
      and p: "p_variance s = post_variance s"
      and pl: "p_log_variance s = map ln (post_variance s ! 1 # drop 1 (post_variance s))"
      and pc: "post_log_variance_clipped s
                = map ln (post_variance s ! 1 # drop 1 (post_variance s))"
      by (elim exE conjE)
    note v = two_step_tables[OF bs ab sh pv]
    have "p_variance s = [0, 1/14]" by (simp add: p v)
    moreover have "p_log_variance s = [ln (1/14), ln (1/14)]" by (simp add: pl v)
    moreover have "post_log_variance_clipped s = [ln (1/14), ln (1/14)]" by (simp add: pc v)
    ultimately show ?thesis using s v by (intro exI[of _ s] conjI)
  qed
  have "\<forall>vt. vt \<noteq> ''fixedlarge'' \<and> vt \<noteq> ''fixedsmall'' \<longrightarrow>
          setup_precomputed_const (?m\<lparr>var_type := vt\<rparr>) CPU = Inl KeyError"
    using variance_selection[OF T, of CPU] by (elim conjE)
  then have "''learned'' \<noteq> ''fixedlarge'' \<and> ''learned'' \<noteq> ''fixedsmall'' \<longrightarrow>
          setup_precomputed_const (?m\<lparr>var_type := ''learned''\<rparr>) CPU = Inl KeyError"
    by (rule spec)
  then have d: "setup_precomputed_const (init (1/10) (1/5) 2 ''learned'') CPU = Inl KeyError"
    unfolding le by simp
  show ?thesis using a c d by simp
qed

text \<open>
  C6 (as amended). The outcome of the setup depends on \<open>T\<close> and the variance type only:
  RuntimeError for \<open>T < 0\<close>, AssertionError for \<open>T = 0\<close>, IndexError for \<open>T = 1\<close>,
  and for \<open>T \<ge> 2\<close> a KeyError when the variance type is neither \<open>fixedlarge\<close> nor
  \<open>fixedsmall\<close> and success otherwise. The two betas are never compared and no
  ConfigurationError is raised.
\<close>

theorem setup_outcome:
  "map_sum id (\<lambda>s. ()) (setup_precomputed_const m dev) =
     (if T m < 0 then Inl RuntimeError
      else if T m = 0 then Inl AssertionError
      else if T m = 1 then Inl IndexError
      else if var_type m \<noteq> ''fixedlarge'' \<and> var_type m \<noteq> ''fixedsmall'' then Inl KeyError
      else Inr ())"
proof -
  consider "T m < 0" | "T m = 0" | "T m = 1"
    | "2 \<le> T m" "var_type m \<noteq> ''fixedlarge'' \<and> var_type m \<noteq> ''fixedsmall''"
    | "2 \<le> T m" "var_type m = ''fixedlarge'' \<or> var_type m = ''fixedsmall''"
    by fastforce
  then show ?thesis
  proof cases
    case 5
    then obtain s where "setup_precomputed_const m dev = Inr s"
      using setup_succeeds by blast
    then show ?thesis using 5 by auto
  qed (simp_all add: setup_negative setup_zero setup_one setup_key)
qed

text \<open>
  C6 as stated: \<open>beta_1 = 0.5 \<ge> beta_2 = 0.1\<close> with \<open>T = 2\<close> is accepted; the setup
  does not fail.
\<close>

theorem unordered_betas_accepted_counterexample:
  "\<not> isl (setup_precomputed_const (init (1/2) (1/10) 2 ''fixedlarge'') CPU)"
proof -
  obtain s where "setup_precomputed_const (init (1/2) (1/10) 2 ''fixedlarge'') CPU = Inr s"
    using setup_succeeds[of "init (1/2) (1/10) 2 ''fixedlarge''" CPU] by (auto simp: init_def)
  then show ?thesis by simp
qed

text \<open>The amended C6 at an invalid variance type: a KeyError.\<close>

theorem setup_outcome_witness:
  "map_sum id (\<lambda>s. ()) (setup_precomputed_const (init (1/10) (1/5) 1000 ''learned'') CPU)
     = Inl KeyError"
  using setup_outcome[of "init (1/10) (1/5) 1000 ''learned''" CPU]
  by (simp add: init_def)

section \<open>Claims about the noise process\<close>

lemma extract_gather_map:
  "extract_gather d (map f a) d' t = map_sum id (map f) (extract_gather d a d' t)"
  by (auto simp: extract_gather_def list_all_iff)

lemma extract_gather_ok:
  "d = d' \<Longrightarrow> list_all (\<lambda>i. 0 \<le> i \<and> i < int (length a)) t \<Longrightarrow>
   extract_gather d a d' t = Inr (map (\<lambda>i. a ! nat i) t)"
  by (simp add: extract_gather_def)

lemma bc_mul_same:
  "length col = length x \<Longrightarrow> bc_mul col x = Inr (map2 (\<lambda>c row. map ((*) c) row) col x)"
  by (simp add: bc_mul_def)

lemma roundtrip_scalar:
  assumes "0 < a" "a < 1"
  shows "sqrt (1 / a) * (sqrt a * x + sqrt (1 - a) * e) - sqrt (1 / a - 1) * e = x"
proof -
  have "sqrt (1 / a) * sqrt a = sqrt (1 / a * a)"
    by (rule real_sqrt_mult[symmetric])
  also have "1 / a * a = 1" using assms by simp
  finally have 1: "sqrt (1 / a) * sqrt a = 1" by simp
  have "sqrt (1 / a) * sqrt (1 - a) = sqrt (1 / a * (1 - a))"
    by (rule real_sqrt_mult[symmetric])
  also have "1 / a * (1 - a) = 1 / a - 1" using assms by (simp add: field_simps)
  finally have 2: "sqrt (1 / a) * sqrt (1 - a) = sqrt (1 / a - 1)" .
  have "sqrt (1 / a) * (sqrt a * x + sqrt (1 - a) * e)
        = (sqrt (1 / a) * sqrt a) * x + (sqrt (1 / a) * sqrt (1 - a)) * e"
    by (simp add: algebra_simps)
  then show ?thesis by (simp add: 1 2)
qed

lemma roundtrip_row:
  assumes "0 < a" "a < 1" "length er = length xr"
  shows "map2 (-) (map ((*) (sqrt (1 / a)))
                    (map2 (+) (map ((*) (sqrt a)) xr) (map ((*) (sqrt (1 - a))) er)))
                  (map ((*) (sqrt (1 / a - 1))) er) = xr"
  using assms(3) by (auto simp: list_eq_iff_nth_eq roundtrip_scalar[OF assms(1,2)])

lemma roundtrip_tensor:
  assumes "\<forall>a\<in>set cs. 0 < a \<and> a < 1" "length cs = length x" "shape eps = shape x"
  shows "tsub (map2 (\<lambda>c row. map ((*) c) row) (map (\<lambda>a. sqrt (1 / a)) cs)
                (tadd (map2 (\<lambda>c row. map ((*) c) row) (map sqrt cs) x)
                      (map2 (\<lambda>c row. map ((*) c) row) (map (\<lambda>a. sqrt (1 - a)) cs) eps)))
              (map2 (\<lambda>c row. map ((*) c) row) (map (\<lambda>a. sqrt (1 / a - 1)) cs) eps) = x"
proof -
  have le: "length eps = length x" using assms(3) by (metis length_map shape_def)
  have rows: "\<And>k. k < length x \<Longrightarrow> length (eps ! k) = length (x ! k)"
    using assms(3) le unfolding shape_def by (metis nth_map)
  have rng: "\<And>k. k < length x \<Longrightarrow> 0 < cs ! k \<and> cs ! k < 1"
    using assms(1,2) by simp
  show ?thesis
    unfolding tsub_def tadd_def
    using assms(2) le rows rng
    by (auto simp: list_eq_iff_nth_eq roundtrip_scalar)
qed


lemma list_all_nth_range:
  assumes "list_all (\<lambda>i. 0 \<le> i \<and> i < n) t" "\<forall>a\<in>set tbl. P a" "int (length tbl) = n"
  shows "\<forall>a\<in>set (map (\<lambda>i. tbl ! nat i) t). P a"
  using assms by (auto simp: list_all_iff)

text \<open>
  C1. On a schedule built from betas in \<open>(0, 1)\<close>, for every clean sample \<open>x\<close>, noise
  \<open>eps\<close> of the same shape and batch-length vector \<open>t\<close> of timesteps in \<open>[0, T)\<close>:
  \<^verbatim>\<open>compute_noisy_input\<close> followed by \<^verbatim>\<open>_predict_xstart_from_eps\<close> with the same \<open>t\<close> and
  \<open>eps\<close> raises nothing and returns \<open>x\<close> exactly; no clamp is applied on the way.
\<close>

theorem noisy_roundtrip:
  assumes "0 < beta_1 m" and "beta_1 m < 1" and "0 < beta_2 m" and "beta_2 m < 1"
    and "2 \<le> T m" and "var_type m = ''fixedlarge'' \<or> var_type m = ''fixedsmall''"
    and "list_all (\<lambda>i. 0 \<le> i \<and> i < T m) t"
    and "shape eps = shape x" and "length t = length x"
  shows "bindE (setup_precomputed_const m dev) (\<lambda>s.
           bindE (compute_noisy_input s dev x eps t) (\<lambda>x_t.
             predict_xstart_from_eps s dev x_t t eps)) = Inr x"
proof -
  obtain s where s: "setup_precomputed_const m dev = Inr s"
    using setup_succeeds[OF assms(5,6)] by blast
  define cs where "cs = map (\<lambda>i. alpha_bar s ! nat i) t"
  have len: "int (length (alpha_bar s)) = T m"
    using setup_lengths(3)[OF s] assms(5) by simp
  have t: "list_all (\<lambda>i. 0 \<le> i \<and> i < int (length (alpha_bar s))) t"
    using assms(7) len by simp
  have cs: "\<forall>a\<in>set cs. 0 < a \<and> a < 1"
    unfolding cs_def
    by (rule list_all_nth_range[OF assms(7) alpha_bar_range[OF s assms(1-4)] len])
  have lcs: "length cs = length x" by (simp add: cs_def assms(9))
  have le: "length eps = length x" using assms(8) by (metis length_map shape_def)
  have ex: "\<And>f. extract_gather (const_dev s) (map f (alpha_bar s)) dev t = Inr (map f cs)"
    using t by (simp add: extract_gather_map extract_gather_ok setup_const_dev[OF s] cs_def)
  let ?mul = "\<lambda>col y. map2 (\<lambda>c row. map ((*) c) row) col y"
  let ?xt = "tadd (?mul (map sqrt cs) x) (?mul (map (\<lambda>a. sqrt (1 - a)) cs) eps)"
  have noisy: "compute_noisy_input s dev x eps t = Inr ?xt"
    by (simp add: compute_noisy_input_def assms(8) setup_sqrt_alpha_bar[OF s]
        setup_minus_sqrt_alpha_bar[OF s] ex bc_mul_same lcs le)
  have lxt: "length ?xt = length x" by (simp add: tadd_def lcs le)
  have sxt: "shape ?xt = shape eps"
    using assms(8) lcs le unfolding shape_def tadd_def
    by (auto simp: list_eq_iff_nth_eq)
  have "predict_xstart_from_eps s dev ?xt t eps
        = Inr (tsub (?mul (map (\<lambda>a. sqrt (1 / a)) cs) ?xt)
                    (?mul (map (\<lambda>a. sqrt (1 / a - 1)) cs) eps))"
    by (simp add: predict_xstart_from_eps_def sxt setup_sqrt_recip[OF s]
        setup_sqrt_recipm1[OF s] ex bc_mul_same lcs le lxt)
  also have "\<dots> = Inr x" using roundtrip_tensor[OF cs lcs assms(8)] by simp
  finally show ?thesis by (simp add: s noisy)
qed

text \<open>C1 on a batch of two samples at the timesteps 0 and 1 of a two-step schedule.\<close>

theorem noisy_roundtrip_witness:
  "bindE (setup_precomputed_const (init (1/10) (1/5) 2 ''fixedlarge'') CPU) (\<lambda>s.
     bindE (compute_noisy_input s CPU [[1, 2], [3, 4]] [[5, 6], [7, 8]] [0, 1]) (\<lambda>x_t.
       predict_xstart_from_eps s CPU x_t [0, 1] [[5, 6], [7, 8]])) = Inr [[1, 2], [3, 4]]"
  using noisy_roundtrip[of "init (1/10) (1/5) 2 ''fixedlarge''" "[0, 1]"
      "[[5, 6], [7, 8]]" "[[1, 2], [3, 4]]" CPU]
  by (simp add: init_def shape_def)

section \<open>Facts about the reverse chain\<close>

lemma shape_length: "shape a = shape b \<Longrightarrow> length a = length b"
  by (metis length_map shape_def)

lemma shape_scale [simp]:
  "length col = length x \<Longrightarrow> shape (map2 (\<lambda>c row. map ((*) c) row) col x) = shape x"
  by (induction col x rule: list_induct2) (simp_all add: shape_def)

lemma shape_map2_rows:
  "length a = length b \<Longrightarrow> map length a = map length b \<Longrightarrow>
   map length (map2 (map2 f) a b) = map length b"
  by (induction a b rule: list_induct2) simp_all

lemma shape_tadd [simp]: "shape a = shape b \<Longrightarrow> shape (tadd a b) = shape b"
  using shape_length[of a b] shape_map2_rows[of a b "(+)"]
  by (simp add: shape_def tadd_def)

lemma shape_tsub [simp]: "shape a = shape b \<Longrightarrow> shape (tsub a b) = shape b"
  using shape_length[of a b] shape_map2_rows[of a b "(-)"]
  by (simp add: shape_def tsub_def)

lemma shape_clamp [simp]: "shape (clamp x) = shape x"
  by (simp add: shape_def clamp_def)

lemma shape_randn_like [simp]: "shape (randn_like zs k x) = shape x"
proof -
  have "shape (randn_like zs k x) = map (\<lambda>i. length (x ! i)) [0 ..< length x]"
    by (simp add: shape_def randn_like_def comp_def)
  also have "\<dots> = map length (map ((!) x) [0 ..< length x])" by (simp add: comp_def)
  also have "\<dots> = shape x" by (simp only: map_nth shape_def)
  finally show ?thesis .
qed

lemma length_randn_like [simp]: "length (randn_like zs k x) = length x"
  by (simp add: randn_like_def)

lemma extract_gather_replicate:
  "d = d' \<Longrightarrow> 0 \<le> t \<Longrightarrow> t < int (length a) \<Longrightarrow>
   extract_gather d a d' (replicate B t) = Inr (replicate B (a ! nat t))"
  by (simp add: extract_gather_def list_all_iff)

lemma gpmc_effects:
  "fst (get_posterior_mean_covariance s dev dec x t clip cond fx)
     = fx\<lparr>decoder_calls := Suc (decoder_calls fx)\<rparr>"
  by (simp add: get_posterior_mean_covariance_def Let_def)

lemma gpmc_value:
  "snd (get_posterior_mean_covariance s dev dec x t True cond fx) = posterior s dev dec x t cond"
  by (simp add: get_posterior_mean_covariance_def posterior_def Let_def)

lemma setup_usable:
  "setup_precomputed_const m dev = Inr s \<Longrightarrow> n \<le> T m \<Longrightarrow> usable s dev n"
  using setup_Inr_T[of m dev s]
  by (simp add: usable_def setup_lengths setup_const_dev)

lemma posterior_ok:
  assumes "usable s dev n" and "0 \<le> t" and "t < n"
    and "shape (dec x (replicate (length x) t) cond) = shape x"
  shows "\<exists>pm pv plv. posterior s dev dec x t cond = Inr (pm, pv, plv)
           \<and> shape pm = shape x \<and> length plv = length x"
proof -
  let ?B = "length x"
  let ?eps = "dec x (replicate ?B t) cond"
  let ?mul = "\<lambda>col y. map2 (\<lambda>c row. map ((*) c) row) col y"
  have le: "length ?eps = ?B" by (rule shape_length[OF assms(4)])
  have ex: "extract_gather (const_dev s) (sqrt_recip_alphas_cumprod s) dev (replicate ?B t)
              = Inr (replicate ?B (sqrt_recip_alphas_cumprod s ! nat t))"
    "extract_gather (const_dev s) (sqrt_recipm1_alphas_cumprod s) dev (replicate ?B t)
              = Inr (replicate ?B (sqrt_recipm1_alphas_cumprod s ! nat t))"
    "extract_gather (const_dev s) (post_coeff_1 s) dev (replicate ?B t)
              = Inr (replicate ?B (post_coeff_1 s ! nat t))"
    "extract_gather (const_dev s) (post_coeff_2 s) dev (replicate ?B t)
              = Inr (replicate ?B (post_coeff_2 s ! nat t))"
    "extract_gather (const_dev s) (p_variance s) dev (replicate ?B t)
              = Inr (replicate ?B (p_variance s ! nat t))"
    "extract_gather (const_dev s) (p_log_variance s) dev (replicate ?B t)
              = Inr (replicate ?B (p_log_variance s ! nat t))"
    using assms(1-3) by (simp_all add: usable_def extract_gather_replicate)
  define xr where "xr = tsub (?mul (replicate ?B (sqrt_recip_alphas_cumprod s ! nat t)) x)
                             (?mul (replicate ?B (sqrt_recipm1_alphas_cumprod s ! nat t)) ?eps)"
  have pr: "predict_xstart_from_eps s dev x (replicate ?B t) ?eps = Inr xr"
    by (simp add: predict_xstart_from_eps_def assms(4) ex bc_mul_same le xr_def)
  have sxr: "shape xr = shape x"
    unfolding xr_def using assms(4) le by simp
  have lxr: "length xr = ?B" by (rule shape_length[OF sxr])
  define pm where "pm = tadd (?mul (replicate ?B (post_coeff_1 s ! nat t)) (clamp xr))
                             (?mul (replicate ?B (post_coeff_2 s ! nat t)) x)"
  have lcl: "length (clamp xr) = ?B" using lxr by (simp add: clamp_def)
  have "posterior s dev dec x t cond
          = Inr (pm, replicate ?B (p_variance s ! nat t), replicate ?B (p_log_variance s ! nat t))"
    by (simp add: posterior_def get_posterior_mean_covariance_def Let_def pr ex bc_mul_same
        lcl pm_def)
  moreover have "shape pm = shape x"
    unfolding pm_def using lcl sxr by simp
  ultimately show ?thesis by simp
qed

lemma langevin_ok:
  assumes "shape pm = shape z" "length plv = length z"
  shows "\<exists>x'. langevin_step t pm plv z = Inr x' \<and> shape x' = shape z"
  using assms by (simp add: langevin_step_def bc_mul_same)



subsection \<open>Step labels\<close>

lemma digit_char_inj: "a < 10 \<Longrightarrow> b < 10 \<Longrightarrow> digit_char a = digit_char b \<Longrightarrow> a = b"
proof -
  assume a: "a < 10" and b: "b < 10" and e: "digit_char a = digit_char b"
  have "of_char (digit_char a) = (of_char (digit_char b) :: nat)" using e by simp
  then show "a = b" using a b by (simp add: digit_char_def)
qed

lemma str_nat_small: "n < 10 \<Longrightarrow> str_nat n = [digit_char n]"
  by (simp add: str_nat.simps)

lemma str_nat_large:
  "10 \<le> n \<Longrightarrow> str_nat n = str_nat (n div 10) @ [digit_char (n mod 10)]"
  by (subst str_nat.simps) simp

lemma str_nat_nonempty: "str_nat n \<noteq> []"
  by (cases "n < 10") (simp_all add: str_nat_small str_nat_large)

lemma str_nat_inj: "str_nat a = str_nat b \<Longrightarrow> a = b"
proof (induction a arbitrary: b rule: less_induct)
  case (less a)
  show ?case
  proof (cases "a < 10")
    case a: True
    show ?thesis
    proof (cases "b < 10")
      case True
      then show ?thesis using less.prems a by (simp add: str_nat_small digit_char_inj)
    next
      case False
      then show ?thesis using less.prems a str_nat_nonempty[of "b div 10"]
        by (simp add: str_nat_small str_nat_large)
    qed
  next
    case a: False
    show ?thesis
    proof (cases "b < 10")
      case True
      then show ?thesis using less.prems a str_nat_nonempty[of "a div 10"]
        by (simp add: str_nat_small str_nat_large)
    next
      case False
      then have e: "str_nat (a div 10) = str_nat (b div 10)"
        "digit_char (a mod 10) = digit_char (b mod 10)"
        using less.prems a by (simp_all add: str_nat_large)
      have "a div 10 = b div 10" using less.IH[of "a div 10" "b div 10"] e(1) a by simp
      moreover have "a mod 10 = b mod 10" using e(2) by (simp add: digit_char_inj)
      ultimately show ?thesis by (metis div_mult_mod_eq)
    qed
  qed
qed

lemma str_inj_nat: "str (int a) = str (int b) \<Longrightarrow> a = b"
  by (simp add: str_def str_nat_inj)

lemma dict_set_fresh: "k \<notin> fst ` set d \<Longrightarrow> dict_set d k v = d @ [(k, v)]"
  by (induction d) auto

lemma steps_eq:
  "enumerate_from0 (reversed_range n)
     = map (\<lambda>i. (int i, int (nat n) - 1 - int i)) [0 ..< nat n]"
proof -
  have "\<And>i. i < nat n \<Longrightarrow> rev (map int [0 ..< nat n]) ! i = int (nat n) - 1 - int i"
    by (simp add: rev_nth)
  then show ?thesis
    by (simp add: enumerate_from0_def reversed_range_def list_eq_iff_nth_eq)
qed

lemma sample_loop_Nil:
  "sample_loop s dev dec zs x_t cond cps [] x d fx = (fx, Inr d)"
  by simp

lemma sample_loop_step:
  assumes "posterior s dev dec x t cond = Inr (pm, pv, plv)"
    and "langevin_step t pm plv (randn_like zs (noise_draws fx) x_t) = Inr x'"
  shows "sample_loop s dev dec zs x_t cond cps ((idx, t) # its) x d fx
       = sample_loop s dev dec zs x_t cond cps its x'
           (if idx + 1 \<in> set cps then dict_set d (str (idx + 1)) x' else d)
           (fx\<lparr>noise_draws := Suc (noise_draws fx), decoder_calls := Suc (decoder_calls fx)\<rparr>)"
  using assms
  by (simp add: Let_def split_def gpmc_effects gpmc_value)

lemma sample_loop_posterior_fails:
  assumes "posterior s dev dec x t cond = Inl e"
  shows "sample_loop s dev dec zs x_t cond cps ((idx, t) # its) x d fx
       = (fx\<lparr>noise_draws := Suc (noise_draws fx), decoder_calls := Suc (decoder_calls fx)\<rparr>,
          Inl e)"
  using assms
  by (simp add: Let_def split_def gpmc_effects gpmc_value)

lemma sample_loop_langevin_fails:
  assumes "posterior s dev dec x t cond = Inr (pm, pv, plv)"
    and "langevin_step t pm plv (randn_like zs (noise_draws fx) x_t) = Inl e"
  shows "sample_loop s dev dec zs x_t cond cps ((idx, t) # its) x d fx
       = (fx\<lparr>noise_draws := Suc (noise_draws fx), decoder_calls := Suc (decoder_calls fx)\<rparr>,
          Inl e)"
  using assms
  by (simp add: Let_def split_def gpmc_effects gpmc_value)

subsection \<open>The loop\<close>

lemma recorded_0 [simp]: "recorded s dev dec zs x_t cond cps n 0 = []"
  by (simp add: recorded_def)

lemma recorded_fresh:
  "k < j \<Longrightarrow> str (int j) \<notin> fst ` set (recorded s dev dec zs x_t cond cps n k)"
  by (auto simp: recorded_def dest!: str_inj_nat)

lemma recorded_Suc_append:
  "recorded s dev dec zs x_t cond cps n (Suc k) =
     recorded s dev dec zs x_t cond cps n k
       @ (if int (Suc k) \<in> set cps
          then [(str (int (Suc k)), projr (chain_state s dev dec zs x_t cond n (Suc k)))]
          else [])"
  unfolding recorded_def by (simp del: chain_state.simps of_nat_Suc)

lemma recorded_Suc:
  "recorded s dev dec zs x_t cond cps n (Suc k) =
     (if int k + 1 \<in> set cps
      then dict_set (recorded s dev dec zs x_t cond cps n k) (str (int k + 1))
             (projr (chain_state s dev dec zs x_t cond n (Suc k)))
      else recorded s dev dec zs x_t cond cps n k)"
proof -
  have e: "int k + 1 = int (Suc k)" by simp
  have "str (int (Suc k)) \<notin> fst ` set (recorded s dev dec zs x_t cond cps n k)"
    by (rule recorded_fresh) simp
  then have "dict_set (recorded s dev dec zs x_t cond cps n k) (str (int (Suc k)))
               (projr (chain_state s dev dec zs x_t cond n (Suc k)))
             = recorded s dev dec zs x_t cond cps n k
                 @ [(str (int (Suc k)), projr (chain_state s dev dec zs x_t cond n (Suc k)))]"
    by (rule dict_set_fresh)
  then show ?thesis
    unfolding e by (simp add: recorded_Suc_append del: of_nat_Suc chain_state.simps)
qed

lemma reverse_step_ok:
  assumes "keeps_shape dec cond"
    and "usable s dev (int n)" and "idx < n"
    and "shape x = shape x_t"
  shows "\<exists>pm pv plv x'. posterior s dev dec x (int n - 1 - int idx) cond = Inr (pm, pv, plv)
           \<and> langevin_step (int n - 1 - int idx) pm plv (randn_like zs idx x_t) = Inr x'
           \<and> reverse_step s dev dec zs x_t cond n idx x = Inr x'
           \<and> shape x' = shape x_t"
proof -
  obtain pm pv plv where p: "posterior s dev dec x (int n - 1 - int idx) cond = Inr (pm, pv, plv)"
    and spm: "shape pm = shape x" and lplv: "length plv = length x"
    using posterior_ok[OF assms(2), of "int n - 1 - int idx" dec x cond] assms(1,3)
    by (auto simp: keeps_shape_def)
  have "shape pm = shape (randn_like zs idx x_t)" using spm assms(4) by simp
  moreover have "length plv = length (randn_like zs idx x_t)"
    using lplv shape_length[OF assms(4)] by simp
  ultimately obtain x' where
    l: "langevin_step (int n - 1 - int idx) pm plv (randn_like zs idx x_t) = Inr x'"
    and sx: "shape x' = shape (randn_like zs idx x_t)"
    using langevin_ok by blast
  have "reverse_step s dev dec zs x_t cond n idx x = Inr x'"
    by (simp add: reverse_step_def p l)
  then show ?thesis using p l sx by simp
qed

lemma chain_state_ok:
  assumes "keeps_shape dec cond"
    and "usable s dev (int n)"
    and "k \<le> n"
  shows "\<exists>c. chain_state s dev dec zs x_t cond n k = Inr c \<and> shape c = shape x_t"
  using assms(3)
proof (induction k)
  case 0
  then show ?case by simp
next
  case (Suc k)
  then obtain c where c: "chain_state s dev dec zs x_t cond n k = Inr c"
    and sc: "shape c = shape x_t" by auto
  have "k < n" using Suc.prems by simp
  from reverse_step_ok[OF assms(1,2) this sc, of zs]
  show ?case using c by auto
qed

lemma sample_loop_from:
  assumes "keeps_shape dec cond"
    and "usable s dev (int n)"
    and "i \<le> n"
  shows "sample_loop s dev dec zs x_t cond cps
           (map (\<lambda>j. (int j, int n - 1 - int j)) [i ..< n])
           (projr (chain_state s dev dec zs x_t cond n i))
           (recorded s dev dec zs x_t cond cps n i)
           \<lparr>decoder_calls = i, noise_draws = i\<rparr>
         = (\<lparr>decoder_calls = n, noise_draws = n\<rparr>,
            Inr (recorded s dev dec zs x_t cond cps n n))"
  using assms(3)
proof (induction "n - i" arbitrary: i)
  case 0
  then show ?case by simp
next
  case (Suc d)
  then have i: "i < n" by simp
  obtain c where c: "chain_state s dev dec zs x_t cond n i = Inr c"
    and sc: "shape c = shape x_t"
    using chain_state_ok[OF assms(1,2), of i] i by auto
  obtain pm pv plv x' where
    p: "posterior s dev dec c (int n - 1 - int i) cond = Inr (pm, pv, plv)"
    and l: "langevin_step (int n - 1 - int i) pm plv (randn_like zs i x_t) = Inr x'"
    and r: "reverse_step s dev dec zs x_t cond n i c = Inr x'"
    using reverse_step_ok[OF assms(1,2) i sc, of zs] by blast
  have next_state: "chain_state s dev dec zs x_t cond n (Suc i) = Inr x'"
    by (simp add: c r)
  have l': "langevin_step (int n - 1 - int i) pm plv
              (randn_like zs (noise_draws \<lparr>decoder_calls = i, noise_draws = i\<rparr>) x_t) = Inr x'"
    using l by simp
  have "sample_loop s dev dec zs x_t cond cps
           (map (\<lambda>j. (int j, int n - 1 - int j)) [i ..< n])
           (projr (chain_state s dev dec zs x_t cond n i))
           (recorded s dev dec zs x_t cond cps n i)
           \<lparr>decoder_calls = i, noise_draws = i\<rparr>
        = sample_loop s dev dec zs x_t cond cps
           (map (\<lambda>j. (int j, int n - 1 - int j)) [Suc i ..< n])
           (projr (chain_state s dev dec zs x_t cond n (Suc i)))
           (recorded s dev dec zs x_t cond cps n (Suc i))
           \<lparr>decoder_calls = Suc i, noise_draws = Suc i\<rparr>"
    using i
    by (simp add: upt_conv_Cons c sample_loop_step[OF p l'] next_state recorded_Suc
        del: sample_loop.simps chain_state.simps)
  also have "\<dots> = (\<lparr>decoder_calls = n, noise_draws = n\<rparr>,
            Inr (recorded s dev dec zs x_t cond cps n n))"
    using Suc.hyps(1)[of "Suc i"] Suc.hyps(2) i by simp
  finally show ?case .
qed

lemma sample_loop_all:
  assumes "keeps_shape dec cond"
    and "usable s dev (int (nat num_steps))"
  shows "sample_loop s dev dec zs x_t cond cps (enumerate_from0 (reversed_range num_steps))
           x_t [] no_effects
         = (\<lparr>decoder_calls = nat num_steps, noise_draws = nat num_steps\<rparr>,
            Inr (recorded s dev dec zs x_t cond cps (nat num_steps) (nat num_steps)))"
  using sample_loop_from[OF assms, of 0 zs x_t cps]
  by (simp add: steps_eq no_effects_def)

subsection \<open>The lazy setup and the whole call\<close>

lemma ensure_consts_fresh:
  "tables m = None \<Longrightarrow> setup_precomputed_const m dev = Inr s \<Longrightarrow>
   ensure_consts m dev = (m\<lparr>tables := Some s\<rparr>, Inr s)"
  by (simp add: ensure_consts_def setup_consts_def)

lemma ensure_consts_fails:
  "tables m = None \<Longrightarrow> setup_precomputed_const m dev = Inl e \<Longrightarrow>
   ensure_consts m dev = (m, Inl e)"
  by (simp add: ensure_consts_def setup_consts_def)

lemma ensure_consts_cached:
  "tables m = Some s \<Longrightarrow> ensure_consts m dev = (m, Inr s)"
  by (simp add: ensure_consts_def setup_consts_def)

lemma ensure_consts_ready:
  assumes "setup_precomputed_const m dev = Inr s" and "tables m = None \<or> tables m = Some s"
  shows "ensure_consts m dev = (m\<lparr>tables := Some s\<rparr>, Inr s)"
proof (cases "tables m")
  case None
  then show ?thesis using assms(1) by (simp add: ensure_consts_fresh)
next
  case (Some s')
  then have "s' = s" using assms(2) by simp
  then have "m\<lparr>tables := Some s\<rparr> = m" using Some by simp
  then show ?thesis using Some \<open>s' = s\<close> by (simp add: ensure_consts_cached)
qed

lemma sample_state: "fst (sample m dec zs dev x_t cond n_steps cps) = fst (ensure_consts m dev)"
  by (cases "ensure_consts m dev" rule: prod.exhaust[case_product sum.exhaust])
     (auto simp: sample_def Let_def split_def split: sum.splits)

lemma forward_state: "fst (forward m dec dev x eps t low_res) = fst (ensure_consts m dev)"
  by (auto simp: forward_def split: prod.splits sum.splits)

lemma sample_ok:
  assumes "setup_precomputed_const m dev = Inr s"
    and "tables m = None \<or> tables m = Some s"
    and "keeps_shape dec cond"
    and "num_steps = (case n_steps of None \<Rightarrow> T m | Some n \<Rightarrow> n)"
    and "num_steps \<le> T m"
  shows "sample m dec zs dev x_t cond n_steps checkpoints
         = (m\<lparr>tables := Some s\<rparr>,
            \<lparr>decoder_calls = nat num_steps, noise_draws = nat num_steps\<rparr>,
            Inr (recorded s dev dec zs x_t cond
                   (if checkpoints = [] then [num_steps] else checkpoints)
                   (nat num_steps) (nat num_steps)))"
proof -
  have "2 \<le> T m" by (rule setup_Inr_T[OF assms(1)])
  then have "int (nat num_steps) \<le> T m" using assms(5) by simp
  then have u: "usable s dev (int (nat num_steps))" by (rule setup_usable[OF assms(1)])
  show ?thesis
    unfolding sample_def ensure_consts_ready[OF assms(1,2)]
    using sample_loop_all[OF assms(3) u] assms(4)
    by (simp add: Let_def)
qed

lemma str_1: "str 1 = ''1''"
  by code_simp

lemma str_2: "str 2 = ''2''"
  by code_simp




section \<open>Claims about sampling\<close>




text \<open>
  C10 (as amended). \<^verbatim>\<open>sample\<close> with \<open>n_steps = 0\<close> never enters the loop: no decoder
  evaluation and no noise draw. What it returns is decided by the lazy setup that runs
  before the loop: with the tables there, or built now, the empty dictionary (also with
  the default checkpoints, which are then \<open>[0]\<close>); otherwise the exception of the setup.
\<close>

theorem sample_zero_steps:
  "fst (snd (sample m dec zs dev x_t cond (Some 0) cps))
     = \<lparr>decoder_calls = 0, noise_draws = 0\<rparr>
   \<and> snd (snd (sample m dec zs dev x_t cond (Some 0) cps))
     = (if setup_consts m then Inr []
        else map_sum id (\<lambda>s. []) (setup_precomputed_const m dev))"
proof -
  have l: "enumerate_from0 (reversed_range 0) = []"
    by (simp add: enumerate_from0_def reversed_range_def)
  consider s where "tables m = Some s"
    | e where "tables m = None" "setup_precomputed_const m dev = Inl e"
    | s where "tables m = None" "setup_precomputed_const m dev = Inr s"
    by (cases "tables m"; cases "setup_precomputed_const m dev") auto
  then show ?thesis
  proof cases
    case 1
    then show ?thesis
      by (simp add: sample_def ensure_consts_cached Let_def l no_effects_def setup_consts_def)
  next
    case 2
    then show ?thesis
      by (simp add: sample_def ensure_consts_fails no_effects_def setup_consts_def)
  next
    case 3
    then show ?thesis
      by (simp add: sample_def ensure_consts_fresh Let_def l no_effects_def setup_consts_def)
  qed
qed

text \<open>
  The amended C10 on fresh instances with the defaults of the constructor: the empty
  dictionary with a valid variance type, the KeyError of the setup with an unknown one.
\<close>

theorem sample_zero_steps_witness:
  "fst (snd (sample (init (1/10000) (1/50) 1000 ''fixedlarge'') identity_decoder constant_noise CPU
              [[3]] () (Some 0) []))
     = \<lparr>decoder_calls = 0, noise_draws = 0\<rparr>
   \<and> snd (snd (sample (init (1/10000) (1/50) 1000 ''fixedlarge'') identity_decoder constant_noise CPU
                 [[3]] () (Some 0) [])) = Inr []
   \<and> snd (snd (sample (init (1/10000) (1/50) 1000 ''learned'') identity_decoder constant_noise CPU
                 [[3]] () (Some 0) [])) = Inl KeyError"
proof -
  let ?m = "init (1/10000) (1/50) 1000 ''fixedlarge''"
  let ?k = "init (1/10000) (1/50) 1000 ''learned''"
  obtain s where s: "setup_precomputed_const ?m CPU = Inr s"
    using setup_succeeds[of ?m CPU] by (auto simp: init_def)
  have k: "setup_precomputed_const ?k CPU = Inl KeyError"
    by (rule setup_key) (simp_all add: init_def)
  have f: "\<not> setup_consts ?m" "\<not> setup_consts ?k" by (simp_all add: setup_consts_def init_def)
  show ?thesis
    using sample_zero_steps[of ?m identity_decoder constant_noise CPU "[[3]]" "()" "[]"]
      sample_zero_steps[of ?k identity_decoder constant_noise CPU "[[3]]" "()" "[]"]
    by (simp add: s k f)
qed

text \<open>
  C10 as stated fails on a fresh instance with \<open>T = 1\<close>: the call with \<open>n_steps = 0\<close>
  raises the IndexError of the setup instead of returning.
\<close>

theorem zero_steps_setup_raises_counterexample:
  "snd (snd (sample (init (1/10) (1/5) 1 ''fixedlarge'') identity_decoder constant_noise CPU
               [[3]] () (Some 0) [])) = Inl IndexError"
proof -
  let ?m = "init (1/10) (1/5) 1 ''fixedlarge''"
  have t: "tables ?m = None" by (simp add: init_def)
  have e: "setup_precomputed_const ?m CPU = Inl IndexError"
    by (rule setup_one) (simp add: init_def)
  show ?thesis by (simp add: sample_def ensure_consts_fails[OF t e])
qed

subsection \<open>Checkpoints\<close>



lemma map_of_labelled:
  "map_of (map (\<lambda>j. (str (int j), g j)) xs) (str (int j))
     = (if j \<in> set xs then Some (g j) else None)"
  by (induction xs) (auto dest: str_inj_nat)

lemma map_of_recorded:
  "map_of (recorded s dev dec zs x_t cond cps n k) (str (int j))
     = (if 1 \<le> j \<and> j \<le> k \<and> int j \<in> set cps
        then Some (projr (chain_state s dev dec zs x_t cond n j)) else None)"
  unfolding recorded_def map_of_labelled by auto

lemma upto_2: "[1 ..< Suc 2] = [1, 2]"
  by code_simp

lemma last_reversed_range: "1 \<le> n \<Longrightarrow> last (reversed_range n) = 0"
proof -
  assume "1 \<le> n"
  then have "[0 ..< nat n] \<noteq> []" by simp
  then have "last (rev (map int [0 ..< nat n])) = int (hd [0 ..< nat n])"
    by (simp add: last_rev hd_map)
  also have "\<dots> = 0" using \<open>1 \<le> n\<close> by (simp add: hd_upt)
  finally show ?thesis by (simp add: reversed_range_def)
qed




text \<open>
  C7 (as amended). On an instance whose schedule is built or can be built on the device
  of the input, with a decoder that keeps the shape of its input, and \<open>1 \<le> n_steps \<le> T\<close>:
  the loop runs \<open>n_steps\<close> iterations, the last one at \<open>t = 0\<close>, and the call returns
  normally; the dictionary holds the final sample, under the key \<open>str(n_steps)\<close>, when the
  checkpoints are empty or contain \<open>n_steps\<close>, and has no entry under that key otherwise.
\<close>

theorem sample_final_sample:
  assumes "setup_precomputed_const m dev = Inr s"
    and "tables m = None \<or> tables m = Some s"
    and "keeps_shape dec cond"
    and "1 \<le> n" and "n \<le> T m"
  shows "\<exists>d c. sample m dec zs dev x_t cond (Some n) cps
                 = (m\<lparr>tables := Some s\<rparr>, \<lparr>decoder_calls = nat n, noise_draws = nat n\<rparr>, Inr d)
             \<and> chain_state s dev dec zs x_t cond (nat n) (nat n) = Inr c
             \<and> last (reversed_range n) = 0
             \<and> (cps = [] \<or> n \<in> set cps \<longrightarrow> map_of d (str n) = Some c)
             \<and> (cps \<noteq> [] \<and> n \<notin> set cps \<longrightarrow> map_of d (str n) = None)"
proof -
  let ?cps = "if cps = [] then [n] else cps"
  let ?d = "recorded s dev dec zs x_t cond ?cps (nat n) (nat n)"
  have u: "usable s dev (int (nat n))" using assms(4,5) by (intro setup_usable[OF assms(1)]) simp
  obtain c where c: "chain_state s dev dec zs x_t cond (nat n) (nat n) = Inr c"
    using chain_state_ok[OF assms(3) u, of "nat n" zs x_t] by auto
  have r: "sample m dec zs dev x_t cond (Some n) cps
             = (m\<lparr>tables := Some s\<rparr>, \<lparr>decoder_calls = nat n, noise_draws = nat n\<rparr>, Inr ?d)"
    using sample_ok[OF assms(1-3), of n "Some n" zs x_t cps] assms(5) by simp
  have N1: "1 \<le> nat n" using assms(4) by arith
  have n: "int (nat n) = n" using assms(4) by simp
  have look: "map_of ?d (str n)
                = (if n \<in> set ?cps then Some c else None)"
    using map_of_recorded[of s dev dec zs x_t cond ?cps "nat n" "nat n" "nat n"] N1 c
    unfolding n by simp
  have yes: "cps = [] \<or> n \<in> set cps \<longrightarrow> map_of ?d (str n) = Some c"
    unfolding look by simp
  have no: "cps \<noteq> [] \<and> n \<notin> set cps \<longrightarrow> map_of ?d (str n) = None"
    unfolding look by simp
  show ?thesis using r c last_reversed_range[OF assms(4)] yes no by blast
qed

text \<open>
  The amended C7 on a fresh instance with \<open>T = 2\<close> and two steps: with the checkpoints
  \<open>[1, 2]\<close> the final sample is in the dictionary, with \<open>[1]\<close> it is not.
\<close>

theorem sample_final_sample_witness:
  "\<exists>s c. setup_precomputed_const (init (1/10) (1/5) 2 ''fixedlarge'') CPU = Inr s
     \<and> chain_state s CPU identity_decoder constant_noise [[3]] () 2 2 = Inr c
     \<and> last (reversed_range 2) = 0
     \<and> (\<exists>d. sample (init (1/10) (1/5) 2 ''fixedlarge'') identity_decoder constant_noise CPU [[3]] ()
               (Some 2) [1, 2]
              = ((init (1/10) (1/5) 2 ''fixedlarge'')\<lparr>tables := Some s\<rparr>,
                 \<lparr>decoder_calls = 2, noise_draws = 2\<rparr>, Inr d)
            \<and> map_of d ''2'' = Some c)
     \<and> (\<exists>d. sample (init (1/10) (1/5) 2 ''fixedlarge'') identity_decoder constant_noise CPU [[3]] ()
               (Some 2) [1]
              = ((init (1/10) (1/5) 2 ''fixedlarge'')\<lparr>tables := Some s\<rparr>,
                 \<lparr>decoder_calls = 2, noise_draws = 2\<rparr>, Inr d)
            \<and> map_of d ''2'' = None)"
proof -
  let ?m = "init (1/10) (1/5) 2 ''fixedlarge''"
  obtain s where s: "setup_precomputed_const ?m CPU = Inr s"
    using setup_succeeds[of ?m CPU] by (auto simp: init_def)
  have t: "tables ?m = None \<or> tables ?m = Some s" by (simp add: init_def)
  have k: "keeps_shape identity_decoder ()" by (simp add: keeps_shape_def identity_decoder_def)
  have T: "2 \<le> T ?m" by (simp add: init_def)
  show ?thesis
    using sample_final_sample[OF s t k _ T, of constant_noise "[[3]]" "[1, 2]"]
      sample_final_sample[OF s t k _ T, of constant_noise "[[3]]" "[1]"] s
    by (auto simp: str_2)
qed

text \<open>
  C7 as stated fails for the checkpoints \<open>[1]\<close>, positive and at most \<open>n_steps = 2\<close>: the
  dictionary returned has the key \<open>1\<close> only, so the final sample is not in it.
\<close>

theorem checkpoints_without_final_counterexample:
  "map_sum id (map fst)
     (snd (snd (sample (init (1/10) (1/5) 2 ''fixedlarge'') identity_decoder constant_noise CPU
                  [[3]] () (Some 2) [1])))
   = Inr [''1'']"
proof -
  let ?m = "init (1/10) (1/5) 2 ''fixedlarge''"
  obtain s where s: "setup_precomputed_const ?m CPU = Inr s"
    using setup_succeeds[of ?m CPU] by (auto simp: init_def)
  have t: "tables ?m = None \<or> tables ?m = Some s" by (simp add: init_def)
  have k: "keeps_shape identity_decoder ()" by (simp add: keeps_shape_def identity_decoder_def)
  have "snd (snd (sample ?m identity_decoder constant_noise CPU [[3]] () (Some 2) [1]))
          = Inr (recorded s CPU identity_decoder constant_noise [[3]] () [1] 2 2)"
    using sample_ok[OF s t k, of 2 "Some 2" constant_noise "[[3]]" "[1]"]
    by (simp add: init_def)
  moreover have "map fst (recorded s CPU identity_decoder constant_noise [[3]] () [1] 2 2) = [''1'']"
    unfolding recorded_def upto_2 by (simp add: str_1 del: chain_state.simps)
  ultimately show ?thesis by simp
qed

subsection \<open>Determinism and the cached schedule\<close>

lemma sample_loop_noise_cong:
  assumes "\<forall>k. k < noise_draws fx + length its \<longrightarrow> zs k = zs' k"
  shows "sample_loop s dev dec zs x_t cond cps its x d fx
       = sample_loop s dev dec zs' x_t cond cps its x d fx"
  using assms
proof (induction its arbitrary: x d fx)
  case Nil
  then show ?case by simp
next
  case (Cons it its)
  obtain idx t where it: "it = (idx, t)" by (cases it)
  let ?fx = "fx\<lparr>noise_draws := Suc (noise_draws fx), decoder_calls := Suc (decoder_calls fx)\<rparr>"
  have "zs (noise_draws fx) = zs' (noise_draws fx)" using Cons.prems by simp
  then have z: "randn_like zs (noise_draws fx) x_t = randn_like zs' (noise_draws fx) x_t"
    by (simp add: randn_like_def)
  have rest: "\<forall>k. k < noise_draws ?fx + length its \<longrightarrow> zs k = zs' k"
    using Cons.prems by simp
  show ?case
  proof (cases "posterior s dev dec x t cond")
    case (Inl e)
    show ?thesis unfolding it by (simp only: sample_loop_posterior_fails[OF Inl])
  next
    case (Inr r)
    obtain pm pv plv where r: "r = (pm, pv, plv)" by (cases r)
    note p = Inr[unfolded r]
    show ?thesis
    proof (cases "langevin_step t pm plv (randn_like zs (noise_draws fx) x_t)")
      case (Inl e)
      show ?thesis
        unfolding it
        by (simp only: sample_loop_langevin_fails[OF p Inl]
            sample_loop_langevin_fails[OF p Inl[unfolded z]])
    next
      case (Inr x')
      show ?thesis
        unfolding it
        by (simp only: sample_loop_step[OF p Inr] sample_loop_step[OF p Inr[unfolded z]]
            Cons.IH[OF rest])
    qed
  qed
qed

lemma length_steps [simp]: "length (enumerate_from0 (reversed_range n)) = nat n"
  by (simp add: steps_eq)

lemma ensure_consts_again:
  shows "ensure_consts (fst (ensure_consts m dev)) dev
           = (fst (ensure_consts m dev), snd (ensure_consts m dev))"
    and "T (fst (ensure_consts m dev)) = T m"
proof -
  consider s where "tables m = Some s"
    | e where "tables m = None" "setup_precomputed_const m dev = Inl e"
    | s where "tables m = None" "setup_precomputed_const m dev = Inr s"
    by (cases "tables m"; cases "setup_precomputed_const m dev") auto
  then have "ensure_consts (fst (ensure_consts m dev)) dev
               = (fst (ensure_consts m dev), snd (ensure_consts m dev))
             \<and> T (fst (ensure_consts m dev)) = T m"
  proof cases
    case 1
    then show ?thesis by (simp add: ensure_consts_cached)
  next
    case 2
    then show ?thesis by (simp add: ensure_consts_fails)
  next
    case 3
    then show ?thesis by (simp add: ensure_consts_fresh ensure_consts_cached)
  qed
  then show "ensure_consts (fst (ensure_consts m dev)) dev
               = (fst (ensure_consts m dev), snd (ensure_consts m dev))"
    and "T (fst (ensure_consts m dev)) = T m" by simp_all
qed

lemma sample_result:
  "snd (sample m dec zs dev x_t cond n_steps cps)
     = (case snd (ensure_consts m dev) of
          Inl e \<Rightarrow> (no_effects, Inl e)
        | Inr s \<Rightarrow>
            sample_loop s dev dec zs x_t cond
              (if cps = [] then [case n_steps of None \<Rightarrow> T m | Some n \<Rightarrow> n] else cps)
              (enumerate_from0 (reversed_range (case n_steps of None \<Rightarrow> T m | Some n \<Rightarrow> n)))
              x_t [] no_effects)"
  by (cases "ensure_consts m dev" rule: prod.exhaust[case_product sum.exhaust])
     (auto simp: sample_def Let_def split: sum.splits prod.splits)

text \<open>
  C9. The result of \<^verbatim>\<open>sample\<close> (the dictionary or the exception, and the counters) is a
  function of the instance, the decoder, the input, the conditioning, \<open>n_steps\<close>, the
  checkpoints and the first \<open>n_steps\<close> draws of the noise source: two noise sources that
  agree on these draws give the same result, also when the second run is made on the
  instance as the first run left it (with the schedule now cached).
\<close>

theorem sample_deterministic:
  assumes "\<forall>k. int k < (case n_steps of None \<Rightarrow> T m | Some n \<Rightarrow> n) \<longrightarrow> zs k = zs' k"
  shows "sample m dec zs dev x_t cond n_steps cps = sample m dec zs' dev x_t cond n_steps cps
       \<and> snd (sample (fst (sample m dec zs dev x_t cond n_steps cps))
                 dec zs' dev x_t cond n_steps cps)
           = snd (sample m dec zs dev x_t cond n_steps cps)"
proof -
  let ?n = "case n_steps of None \<Rightarrow> T m | Some n \<Rightarrow> n"
  have agree: "\<forall>k. k < noise_draws no_effects + length (enumerate_from0 (reversed_range ?n))
                 \<longrightarrow> zs k = zs' k"
    using assms by (simp add: no_effects_def)
  have loop: "\<And>s c. sample_loop s dev dec zs x_t cond c (enumerate_from0 (reversed_range ?n))
                       x_t [] no_effects
                   = sample_loop s dev dec zs' x_t cond c (enumerate_from0 (reversed_range ?n))
                       x_t [] no_effects"
    by (rule sample_loop_noise_cong[OF agree])
  have res: "snd (sample m dec zs dev x_t cond n_steps cps)
               = snd (sample m dec zs' dev x_t cond n_steps cps)"
    unfolding sample_result by (simp add: loop split: sum.splits)
  have "fst (sample m dec zs dev x_t cond n_steps cps)
          = fst (sample m dec zs' dev x_t cond n_steps cps)"
    by (simp add: sample_state)
  with res have one: "sample m dec zs dev x_t cond n_steps cps
                        = sample m dec zs' dev x_t cond n_steps cps"
    by (simp add: prod_eq_iff)
  have "snd (sample (fst (ensure_consts m dev)) dec zs' dev x_t cond n_steps cps)
          = snd (sample m dec zs' dev x_t cond n_steps cps)"
    by (cases "snd (ensure_consts m dev)"; cases n_steps; cases "cps = []")
       (simp_all add: sample_result ensure_consts_again)
  then have two: "snd (sample (fst (sample m dec zs dev x_t cond n_steps cps))
                         dec zs' dev x_t cond n_steps cps)
                    = snd (sample m dec zs dev x_t cond n_steps cps)"
    unfolding sample_state[of m dec zs] using res by simp
  show ?thesis using one two by simp
qed

text \<open>
  C9 with three steps and two noise sources that differ from the fourth draw on.
\<close>

theorem sample_deterministic_witness:
  "sample (init (1/10) (1/5) 10 ''fixedlarge'') identity_decoder constant_noise CPU [[3]] ()
      (Some 3) [1, 3]
   = sample (init (1/10) (1/5) 10 ''fixedlarge'') identity_decoder
      three_draws_noise CPU [[3]] () (Some 3) [1, 3]
   \<and> snd (sample (fst (sample (init (1/10) (1/5) 10 ''fixedlarge'') identity_decoder constant_noise
                        CPU [[3]] () (Some 3) [1, 3]))
            identity_decoder three_draws_noise CPU [[3]] () (Some 3) [1, 3])
     = snd (sample (init (1/10) (1/5) 10 ''fixedlarge'') identity_decoder constant_noise CPU [[3]] ()
              (Some 3) [1, 3])"
proof -
  have same: "\<forall>k. int k < (case Some 3 of None \<Rightarrow> T (init (1/10) (1/5) 10 ''fixedlarge'')
                                | Some n \<Rightarrow> n)
                \<longrightarrow> constant_noise k = three_draws_noise k"
    by (auto simp: fun_eq_iff constant_noise_def three_draws_noise_def)
  show ?thesis by (rule sample_deterministic[OF same])
qed


text \<open>
  C8 (as amended). The schedule is built lazily by the first call to \<^verbatim>\<open>forward\<close> or
  \<^verbatim>\<open>sample\<close>, on the device of that call's input, and is cached from then on: with the
  flag set, a later call on any device, the same or another, leaves the instance as it
  is and never rebuilds the tables.
\<close>

theorem schedule_cached_once:
  assumes "setup_precomputed_const m dev = Inr s" and "tables m = None"
  shows "fst (sample m dec zs dev x_t cond n_steps cps) = m\<lparr>tables := Some s\<rparr>
       \<and> fst (forward m dec dev x eps t low_res) = m\<lparr>tables := Some s\<rparr>
       \<and> const_dev s = dev
       \<and> setup_consts (m\<lparr>tables := Some s\<rparr>)
       \<and> fst (sample (m\<lparr>tables := Some s\<rparr>) dec zs dev' x_t cond n_steps cps)
           = m\<lparr>tables := Some s\<rparr>
       \<and> fst (forward (m\<lparr>tables := Some s\<rparr>) dec dev' x eps t low_res)
           = m\<lparr>tables := Some s\<rparr>"
proof -
  have first: "fst (ensure_consts m dev) = m\<lparr>tables := Some s\<rparr>"
    by (simp add: ensure_consts_fresh[OF assms(2,1)])
  have later: "fst (ensure_consts (m\<lparr>tables := Some s\<rparr>) dev') = m\<lparr>tables := Some s\<rparr>"
    by (simp add: ensure_consts_cached)
  show ?thesis
    by (simp add: sample_state forward_state first later setup_const_dev[OF assms(1)]
        setup_consts_def)
qed

text \<open>
  The amended C8 on a fresh instance first used on the CPU, then on a GPU.
\<close>

theorem schedule_cached_once_witness:
  "\<exists>s. setup_precomputed_const (init (1/10) (1/5) 2 ''fixedlarge'') CPU = Inr s
     \<and> fst (sample (init (1/10) (1/5) 2 ''fixedlarge'') identity_decoder constant_noise CPU [[3]] ()
              (Some 2) [])
         = (init (1/10) (1/5) 2 ''fixedlarge'')\<lparr>tables := Some s\<rparr>
     \<and> fst (forward (init (1/10) (1/5) 2 ''fixedlarge'') identity_decoder CPU [[3]] [[7]] [0] ())
         = (init (1/10) (1/5) 2 ''fixedlarge'')\<lparr>tables := Some s\<rparr>
     \<and> const_dev s = CPU
     \<and> setup_consts ((init (1/10) (1/5) 2 ''fixedlarge'')\<lparr>tables := Some s\<rparr>)
     \<and> fst (sample ((init (1/10) (1/5) 2 ''fixedlarge'')\<lparr>tables := Some s\<rparr>) identity_decoder
              constant_noise (CUDA 0) [[3]] () (Some 2) [])
         = (init (1/10) (1/5) 2 ''fixedlarge'')\<lparr>tables := Some s\<rparr>
     \<and> fst (forward ((init (1/10) (1/5) 2 ''fixedlarge'')\<lparr>tables := Some s\<rparr>) identity_decoder
              (CUDA 0) [[3]] [[7]] [0] ())
         = (init (1/10) (1/5) 2 ''fixedlarge'')\<lparr>tables := Some s\<rparr>"
proof -
  let ?m = "init (1/10) (1/5) 2 ''fixedlarge''"
  obtain s where s: "setup_precomputed_const ?m CPU = Inr s"
    using setup_succeeds[of ?m CPU] by (auto simp: init_def)
  have t: "tables ?m = None" by (simp add: init_def)
  show ?thesis
    using schedule_cached_once[OF s t, of identity_decoder constant_noise "[[3]]" "()" "Some 2" "[]"
        "[[3]]" "[[7]]" "[0]" "()" "CUDA 0"] s
    by blast
qed

text \<open>
  C8 as stated fails: after a first call on the CPU, a call on a GPU does not rebuild the
  schedule; the tables stay on the CPU and the call raises for the device mismatch.
\<close>

theorem schedule_not_rebuilt_counterexample:
  "map_option const_dev
     (tables (fst (forward
        (fst (forward (init (1/10) (1/5) 2 ''fixedlarge'') identity_decoder CPU [[3]] [[7]] [0] ()))
        identity_decoder (CUDA 0) [[3]] [[7]] [0] ())))
   = Some CPU
   \<and> snd (snd (forward
        (fst (forward (init (1/10) (1/5) 2 ''fixedlarge'') identity_decoder CPU [[3]] [[7]] [0] ()))
        identity_decoder (CUDA 0) [[3]] [[7]] [0] ()))
   = Inl RuntimeError"
proof -
  let ?m = "init (1/10) (1/5) 2 ''fixedlarge''"
  obtain s where s: "setup_precomputed_const ?m CPU = Inr s"
    using setup_succeeds[of ?m CPU] by (auto simp: init_def)
  have t: "tables ?m = None" by (simp add: init_def)
  have d: "const_dev s = CPU" by (rule setup_const_dev[OF s])
  have m1: "fst (forward ?m identity_decoder CPU [[3]] [[7]] [0] ()) = ?m\<lparr>tables := Some s\<rparr>"
    by (simp add: forward_state ensure_consts_fresh[OF t s])
  have e: "ensure_consts (?m\<lparr>tables := Some s\<rparr>) (CUDA 0) = (?m\<lparr>tables := Some s\<rparr>, Inr s)"
    by (simp add: ensure_consts_cached)
  have n: "compute_noisy_input s (CUDA 0) [[3]] [[7]] [0] = Inl RuntimeError"
    by (simp add: compute_noisy_input_def extract_gather_def d shape_def)
  show ?thesis
    unfolding m1 by (simp add: forward_def e n d)
qed

end
